theory Spec2Isabelle
  imports Complex_Main "HOL-Library.Log_Nat"
begin

section \<open>Values and outcomes\<close>

text \<open>
  The tracker of \<^verbatim>\<open>src/twicks.js\<close> keeps every collection as a JSON document. A JSON
  value is modelled by the datatype below; a number in a document is finite and is given
  by the rational it denotes (\<^verbatim>\<open>JSON.stringify\<close> writes \<^verbatim>\<open>NaN\<close> and the infinities as
  \<^verbatim>\<open>null\<close>).
\<close>

datatype json =
    JNull
  | JBool bool
  | JNum rat
  | JStr string
  | JArr "json list"
  | JObj "(string \<times> json) list"

text \<open>JavaScript truthiness of a JSON value, as \<^verbatim>\<open>if (data.bought)\<close> and \<^verbatim>\<open>!payload\<close> test it.\<close>

fun truthy :: "json \<Rightarrow> bool" where
  "truthy JNull = False"
| "truthy (JBool b) = b"
| "truthy (JNum n) = (n \<noteq> 0)"
| "truthy (JStr s) = (s \<noteq> [])"
| "truthy (JArr xs) = True"
| "truthy (JObj kvs) = True"

text \<open>\<^verbatim>\<open>v ?? d\<close> on a JSON value: only \<^verbatim>\<open>null\<close> gives way to the default.\<close>

fun nullish :: "json \<Rightarrow> json \<Rightarrow> json" where
  "nullish JNull d = d"
| "nullish v d = v"

text \<open>\<^verbatim>\<open>v ?? d\<close> where \<open>v\<close> may also be \<^verbatim>\<open>undefined\<close> (\<open>None\<close>).\<close>

fun nullish_opt :: "json option \<Rightarrow> json \<Rightarrow> json" where
  "nullish_opt None d = d"
| "nullish_opt (Some v) d = nullish v d"

text \<open>The outcome of a call that may throw (or, for an async function, reject).\<close>

datatype 'a outcome = Threw | Returned 'a

section \<open>JavaScript numbers\<close>

text \<open>
  A JavaScript number is \<^verbatim>\<open>NaN\<close>, one of the two infinities, or a finite double, given here
  by the rational it denotes (the two zeros are not told apart). Where a handler only
  stores, compares or negates a number, the rational is all that matters. Where the Cash
  page adds numbers up, \<open>js_add\<close> is the addition of ECMAScript: the exact sum rounded to
  the nearest double, ties to the even significand (IEEE 754 binary64), with overflow to an
  infinity. The result of \<^verbatim>\<open>parseFloat\<close> on a form field is a \<open>number\<close> in the Cash and Sold
  handlers.
\<close>

datatype number = NaN | Infinity | NegInfinity | Finite rat

text \<open>The power of two with an exponent of either sign.\<close>

definition pow2 :: "int \<Rightarrow> rat" where
  "pow2 z = (if 0 \<le> z then of_int (2 ^ nat z) else 1 / of_int (2 ^ nat (- z)))"

text \<open>
  The binary exponent of a positive rational \<open>x\<close>: the \<open>e\<close> with \<open>2^e \<le> x < 2^(e+1)\<close>,
  found from the bit lengths of numerator and denominator.
\<close>

definition ilog2 :: "rat \<Rightarrow> int" where
  "ilog2 x =
     (let d = bitlen (fst (quotient_of x)) - bitlen (snd (quotient_of x))
      in if pow2 d \<le> x then d else d - 1)"

definition round_half_even :: "rat \<Rightarrow> int" where
  "round_half_even m =
     (let f = \<lfloor>m\<rfloor>; d = m - of_int f
      in if d < 1 / 2 then f else if 1 / 2 < d then f + 1 else if even f then f else f + 1)"

text \<open>
  Rounding of a rational to binary64: 53 significant bits, the least exponent of the last
  place being \<open>-1074\<close> (subnormal numbers), a rounded magnitude of \<open>2^1024\<close> or more
  becoming an infinity.
\<close>

definition to_double :: "rat \<Rightarrow> number" where
  "to_double x =
     (if x = 0 then Finite 0
      else
        (let q = max (ilog2 \<bar>x\<bar> - 52) (- 1074);
             r = of_int (round_half_even (\<bar>x\<bar> / pow2 q)) * pow2 q
         in if pow2 1024 \<le> r then (if 0 < x then Infinity else NegInfinity)
            else Finite (if 0 < x then r else - r)))"

text \<open>\<^verbatim>\<open>x + y\<close> on numbers.\<close>

fun js_add :: "number \<Rightarrow> number \<Rightarrow> number" where
  "js_add NaN y = NaN"
| "js_add x NaN = NaN"
| "js_add Infinity NegInfinity = NaN"
| "js_add NegInfinity Infinity = NaN"
| "js_add Infinity y = Infinity"
| "js_add x Infinity = Infinity"
| "js_add NegInfinity y = NegInfinity"
| "js_add x NegInfinity = NegInfinity"
| "js_add (Finite x) (Finite y) = to_double (x + y)"

text \<open>\<^verbatim>\<open>x || 0\<close> on a number: \<^verbatim>\<open>NaN\<close> and zero are falsy.\<close>

fun number_or_zero :: "number \<Rightarrow> number" where
  "number_or_zero NaN = Finite 0"
| "number_or_zero x = x"

text \<open>\<^verbatim>\<open>-Math.abs(x)\<close>.\<close>

fun neg_abs :: "number \<Rightarrow> number" where
  "neg_abs NaN = NaN"
| "neg_abs Infinity = NegInfinity"
| "neg_abs NegInfinity = NegInfinity"
| "neg_abs (Finite x) = Finite (- \<bar>x\<bar>)"

text \<open>\<^verbatim>\<open>isNaN(x) || x <= 0\<close>, the test of the cash handlers.\<close>

fun not_positive :: "number \<Rightarrow> bool" where
  "not_positive NaN = True"
| "not_positive Infinity = False"
| "not_positive NegInfinity = True"
| "not_positive (Finite x) = (x \<le> 0)"

text \<open>
  What is left of a number field in a stored document: \<^verbatim>\<open>JSON.stringify\<close> writes
  \<^verbatim>\<open>NaN\<close> and the infinities as \<^verbatim>\<open>null\<close> (\<open>None\<close>).
\<close>

fun stored_number :: "number \<Rightarrow> rat option" where
  "stored_number (Finite x) = Some x"
| "stored_number x = None"

section \<open>Storage: localStorage with the IndexedDB fallback\<close>

text \<open>
  A string held by \<^verbatim>\<open>localStorage\<close> is represented by what \<^verbatim>\<open>JSON.parse\<close> makes of it:
  \<open>Serialized v\<close> is the text \<^verbatim>\<open>JSON.stringify(v)\<close>, which parses back to \<open>v\<close>, and
  \<open>Malformed\<close> is any text that \<^verbatim>\<open>JSON.parse\<close> rejects.
\<close>

datatype raw = Malformed | Serialized json

text \<open>
  The browser state that \<^verbatim>\<open>Storage\<close> and \<^verbatim>\<open>AutoBackup\<close> work on. The \<open>_throws\<close> and
  \<open>_errors\<close> flags say how the platform answers: \<^verbatim>\<open>localStorage.getItem\<close> or
  \<^verbatim>\<open>setItem\<close> throwing (storage disabled, quota exceeded); \<^verbatim>\<open>indexedDB.open\<close> failing (so
  that \<^verbatim>\<open>ensureDB\<close> returns \<^verbatim>\<open>null\<close>); \<^verbatim>\<open>db.transaction\<close>, \<^verbatim>\<open>objectStore\<close> or \<^verbatim>\<open>get\<close>
  throwing in the read (a closing connection, a missing object store); a read request
  ending in \<^verbatim>\<open>onerror\<close>; a write that rejects (its transaction ending in \<^verbatim>\<open>onerror\<close>, or
  one of its calls throwing). \<open>dirty\<close> is \<^verbatim>\<open>AutoBackup\<close>'s flag, and \<open>markDirty_calls\<close>
  counts the calls of \<^verbatim>\<open>AutoBackup.markDirty\<close> (a ghost field: the source keeps no such
  counter).
\<close>

record storage =
  localStorage :: "string \<rightharpoonup> raw"
  getItem_throws :: bool
  setItem_throws :: bool
  idb_opens :: bool
  idb_store :: "string \<rightharpoonup> json"
  idb_get_throws :: bool
  idb_get_errors :: bool
  idb_put_errors :: bool
  dirty :: bool
  markDirty_calls :: nat

definition localStorage_getItem :: "string \<Rightarrow> storage \<Rightarrow> raw option outcome" where
  "localStorage_getItem key s =
     (if getItem_throws s then Threw else Returned (localStorage s key))"

definition localStorage_setItem :: "string \<Rightarrow> raw \<Rightarrow> storage \<Rightarrow> unit outcome \<times> storage" where
  "localStorage_setItem key r s =
     (if setItem_throws s then (Threw, s)
      else (Returned (), s\<lparr>localStorage := (localStorage s)(key \<mapsto> r)\<rparr>))"

fun JSON_parse :: "raw \<Rightarrow> json outcome" where
  "JSON_parse Malformed = Threw"
| "JSON_parse (Serialized v) = Returned v"

definition JSON_stringify :: "json \<Rightarrow> raw" where
  "JSON_stringify v = Serialized v"

text \<open>
  \<^verbatim>\<open>idbGet\<close> (lines 134-144): \<^verbatim>\<open>undefined\<close> (\<open>None\<close>) when the database did not open or
  the request failed, else the stored value or \<^verbatim>\<open>undefined\<close>. Both handlers of the request
  resolve the promise. The calls \<^verbatim>\<open>db.transaction\<close>, \<^verbatim>\<open>objectStore\<close> and \<^verbatim>\<open>get\<close> run inside
  the promise executor, so an exception of theirs rejects the promise.
\<close>

definition idbGet :: "string \<Rightarrow> storage \<Rightarrow> json option outcome" where
  "idbGet key s =
     (if \<not> idb_opens s then Returned None
      else if idb_get_throws s then Threw
      else if idb_get_errors s then Returned None
      else Returned (idb_store s key))"

text \<open>
  \<^verbatim>\<open>idbSet\<close> (lines 145-155): returns without writing when the database did not open;
  rejects when the transaction fails or one of its calls throws.
\<close>

definition idbSet :: "string \<Rightarrow> json \<Rightarrow> storage \<Rightarrow> unit outcome \<times> storage" where
  "idbSet key val s =
     (if \<not> idb_opens s then (Returned (), s)
      else if idb_put_errors s then (Threw, s)
      else (Returned (), s\<lparr>idb_store := (idb_store s)(key \<mapsto> val)\<rparr>))"

text \<open>
  \<^verbatim>\<open>Storage.load\<close> (lines 158-172). The outer \<^verbatim>\<open>try\<close> swallows a throwing \<^verbatim>\<open>getItem\<close>
  and goes on to \<^verbatim>\<open>idbGet\<close>; the inner \<^verbatim>\<open>catch\<close> returns the fallback at once. The
  call of \<^verbatim>\<open>idbGet\<close> (line 170) stands outside both, so its rejection is the load's.
\<close>

definition Storage_load :: "string \<Rightarrow> json \<Rightarrow> storage \<Rightarrow> json outcome" where
  "Storage_load key fallback s =
     (case (case localStorage_getItem key s of
              Threw \<Rightarrow> None
            | Returned None \<Rightarrow> None
            | Returned (Some r) \<Rightarrow>
                (case JSON_parse r of
                   Returned parsed \<Rightarrow> Some (nullish parsed fallback)
                 | Threw \<Rightarrow> Some fallback)) of
        Some result \<Rightarrow> Returned result
      | None \<Rightarrow>
          (case idbGet key s of
             Threw \<Rightarrow> Threw
           | Returned v \<Rightarrow> Returned (nullish_opt v fallback)))"

text \<open>\<^verbatim>\<open>Storage.load(key)\<close> with the default parameter \<^verbatim>\<open>fallback = []\<close>.\<close>

definition Storage_load_default :: "string \<Rightarrow> storage \<Rightarrow> json outcome" where
  "Storage_load_default key s = Storage_load key (JArr []) s"

text \<open>
  The \<^verbatim>\<open>save\<close> of the \<^verbatim>\<open>Storage\<close> object literal (lines 173-179), before the hooks are
  installed.
\<close>

definition originalSave :: "string \<Rightarrow> json \<Rightarrow> storage \<Rightarrow> unit outcome \<times> storage" where
  "originalSave key val s =
     (case localStorage_setItem key (JSON_stringify (nullish val (JArr []))) s of
        (Returned u, s') \<Rightarrow> (Returned (), s')
      | (Threw, s') \<Rightarrow> idbSet key (nullish val (JArr [])) s')"

text \<open>\<^verbatim>\<open>AutoBackup.markDirty\<close> (lines 737-740); the idle timer is not modelled.\<close>

definition markDirty :: "storage \<Rightarrow> storage" where
  "markDirty s = s\<lparr>dirty := True, markDirty_calls := Suc (markDirty_calls s)\<rparr>"

text \<open>
  \<^verbatim>\<open>patchStorageSaveForAutoBackup\<close> (lines 808-816, and again 819-827) replaces
  \<^verbatim>\<open>Storage.save\<close> by \<^verbatim>\<open>patchedSave\<close>, which awaits the save it wraps and then marks the
  data dirty; a rejected save skips the mark.
\<close>

definition patchedSave ::
  "(string \<Rightarrow> json \<Rightarrow> storage \<Rightarrow> unit outcome \<times> storage) \<Rightarrow>
   string \<Rightarrow> json \<Rightarrow> storage \<Rightarrow> unit outcome \<times> storage" where
  "patchedSave wrapped key val s =
     (case wrapped key val s of
        (Threw, s') \<Rightarrow> (Threw, s')
      | (Returned u, s') \<Rightarrow> (Returned (), markDirty s'))"

text \<open>
  \<^verbatim>\<open>Storage.save\<close> as every handler calls it once the script has run: the hook is
  installed by both blocks, the second wrapping the first.
\<close>

definition Storage_save :: "string \<Rightarrow> json \<Rightarrow> storage \<Rightarrow> unit outcome \<times> storage" where
  "Storage_save = patchedSave (patchedSave originalSave)"

section \<open>Drive backup and restore\<close>

text \<open>The storage keys of \<^verbatim>\<open>KEYS\<close> (lines 20-32) that a snapshot covers.\<close>

definition KEYS_BOUGHT :: string where "KEYS_BOUGHT = ''twicks_bought_v1''"
definition KEYS_FORSALE :: string where "KEYS_FORSALE = ''twicks_forsale_v1''"
definition KEYS_SOLD :: string where "KEYS_SOLD = ''twicks_sold_v1''"
definition KEYS_CASH :: string where "KEYS_CASH = ''twicks_cash_v1''"
definition KEYS_SELLERS :: string where "KEYS_SELLERS = ''twicks_sellers_v1''"
definition KEYS_SHIP_OUT_MAP :: string where "KEYS_SHIP_OUT_MAP = ''twicks_shipping_v1''"
definition KEYS_BUYERS :: string where "KEYS_BUYERS = ''twicks_buyers_v1''"

text \<open>Sequencing of awaited calls: a rejection ends the function.\<close>

fun and_then :: "'a outcome \<Rightarrow> ('a \<Rightarrow> 'b outcome) \<Rightarrow> 'b outcome" where
  "and_then Threw f = Threw"
| "and_then (Returned x) f = f x"

text \<open>
  The payload object that \<^verbatim>\<open>backupToDrive\<close> builds (lines 519-529); \<open>exportedAt\<close> is
  the text of \<^verbatim>\<open>new Date().toISOString()\<close>. The upload serialises the object and a later
  download parses it back, so the restored \<^verbatim>\<open>data\<close> is this value.
\<close>

definition backupToDrive_payload :: "string \<Rightarrow> storage \<Rightarrow> json outcome" where
  "backupToDrive_payload exportedAt s =
     and_then (Storage_load_default KEYS_BOUGHT s) (\<lambda>bought.
     and_then (Storage_load_default KEYS_FORSALE s) (\<lambda>forsale.
     and_then (Storage_load_default KEYS_SOLD s) (\<lambda>sold.
     and_then (Storage_load_default KEYS_CASH s) (\<lambda>cash.
     and_then (Storage_load_default KEYS_SELLERS s) (\<lambda>sellers.
     and_then (Storage_load_default KEYS_SHIP_OUT_MAP s) (\<lambda>shipping.
     and_then (Storage_load_default KEYS_BUYERS s) (\<lambda>buyers.
       Returned (JObj
         [(''bought'', bought), (''forsale'', forsale), (''sold'', sold), (''cash'', cash),
          (''sellers'', sellers), (''shipping'', shipping), (''buyers'', buyers),
          (''exportedAt'', JStr exportedAt), (''version'', JNum 3)]))))))))"

text \<open>
  Property access \<^verbatim>\<open>data.name\<close> on a parsed JSON value: it throws on \<^verbatim>\<open>null\<close>, is
  \<^verbatim>\<open>undefined\<close> (\<open>None\<close>) on a missing property and on a value that has no such
  property (a number, a boolean, a string, an array); of a repeated key the parser keeps
  the last.
\<close>

fun property :: "json \<Rightarrow> string \<Rightarrow> json option outcome" where
  "property JNull name = Threw"
| "property (JObj kvs) name = Returned (map_of (rev kvs) name)"
| "property v name = Returned None"

text \<open>One line \<^verbatim>\<open>if (data.f) await Storage.save(KEYS.K, data.f);\<close> of the restore.\<close>

definition restore_field :: "json \<Rightarrow> string \<Rightarrow> string \<Rightarrow> storage \<Rightarrow> unit outcome \<times> storage" where
  "restore_field data name key s =
     (case property data name of
        Threw \<Rightarrow> (Threw, s)
      | Returned None \<Rightarrow> (Returned (), s)
      | Returned (Some v) \<Rightarrow> if truthy v then Storage_save key v s else (Returned (), s))"

fun restore_fields :: "json \<Rightarrow> (string \<times> string) list \<Rightarrow> storage \<Rightarrow> unit outcome \<times> storage" where
  "restore_fields data [] s = (Returned (), s)"
| "restore_fields data ((name, key) # rest) s =
     (case restore_field data name key s of
        (Threw, s') \<Rightarrow> (Threw, s')
      | (Returned u, s') \<Rightarrow> restore_fields data rest s')"

text \<open>The fields that a restore writes, in the order of lines 569-575.\<close>

definition snapshot_fields :: "(string \<times> string) list" where
  "snapshot_fields =
     [(''bought'', KEYS_BOUGHT), (''forsale'', KEYS_FORSALE), (''sold'', KEYS_SOLD),
      (''cash'', KEYS_CASH), (''sellers'', KEYS_SELLERS), (''shipping'', KEYS_SHIP_OUT_MAP),
      (''buyers'', KEYS_BUYERS)]"

text \<open>
  \<^verbatim>\<open>restoreFromDrive\<close> from the downloaded \<^verbatim>\<open>data\<close> on (lines 566-575); \<open>confirmed\<close> is
  the answer to the \<^verbatim>\<open>confirm\<close> dialogue.
\<close>

definition restoreFromDrive :: "json \<Rightarrow> bool \<Rightarrow> storage \<Rightarrow> unit outcome \<times> storage" where
  "restoreFromDrive data confirmed s =
     (if \<not> confirmed then (Returned (), s) else restore_fields data snapshot_fields s)"

text \<open>A backup followed at once by the (confirmed) restore of what it uploaded.\<close>

definition backup_then_restore :: "string \<Rightarrow> storage \<Rightarrow> unit outcome \<times> storage" where
  "backup_then_restore exportedAt s =
     (case backupToDrive_payload exportedAt s of
        Threw \<Rightarrow> (Threw, s)
      | Returned data \<Rightarrow> restoreFromDrive data True s)"

text \<open>The live collections: what the two stores hold.\<close>

definition live :: "storage \<Rightarrow> (string \<rightharpoonup> raw) \<times> (string \<rightharpoonup> json)" where
  "live s = (localStorage s, idb_store s)"

section \<open>The ledger: collections and page handlers\<close>

text \<open>
  Every page handler loads the collections it needs with \<^verbatim>\<open>Storage.load\<close>, edits the
  loaded arrays and writes them back with \<^verbatim>\<open>Storage.save\<close>. In this section the persisted
  documents are the fields of the record \<open>ledger\<close>, typed as the handlers create them: a load
  reads the field and a save replaces it (storage that neither throws nor loses a write).
  \<^verbatim>\<open>Util.uid()\<close> and \<^verbatim>\<open>Date.now()\<close> are inputs of the handlers that call them. Each
  handler returns the text of the \<^verbatim>\<open>alert\<close> it shows, if any, and the new state.

  A field that some creator of the object leaves out, or that the code tests against
  \<^verbatim>\<open>null\<close>, is an option; \<^verbatim>\<open>x || d\<close> on such a field is \<open>or_default\<close>. On a string or
  number field that is always set, \<^verbatim>\<open>x.seller || ""\<close> and \<^verbatim>\<open>Number(x.buy || 0)\<close> are the
  field itself. In the Inventory handlers a number read from a form field is a
  \<open>rat option\<close> (\<open>None\<close> for \<^verbatim>\<open>NaN\<close>), and the one sum they form, buy plus ship-in, is
  written as the exact sum. The amount of a cash entry is an option, \<open>None\<close> being the
  \<^verbatim>\<open>null\<close> that an infinite amount is stored as.
\<close>

record bought_item =
  b_id :: string
  b_seller :: string
  b_name :: string
  b_buy :: rat
  b_ship :: rat
  b_sell :: "rat option"
  b_image :: string
  b_createdAt :: nat

text \<open>
  An object of the for-sale collection; the Sold handler moves the same object to the sold
  collection after setting \<open>l_buyer\<close>, \<open>l_soldAt\<close> and \<open>l_status\<close>.
\<close>

record listing =
  l_id :: string
  l_name :: string
  l_price :: rat
  l_buy :: rat
  l_ship_in :: "rat option"
  l_seller :: string
  l_image :: string
  l_createdAt :: "nat option"
  l_buyer :: "string option"
  l_soldAt :: "nat option"
  l_status :: "string option"

record cash_entry =
  c_id :: string
  c_source :: string
  c_amount :: "rat option"
  c_note :: string
  c_createdAt :: nat

record ledger =
  bought :: "bought_item list"
  forsale :: "listing list"
  sold :: "listing list"
  cash :: "cash_entry list"
  sellers :: "string list"
  buyers :: "string list"
  seller_last :: "string option"
  buyer_last :: "string option"

text \<open>What every load returns on a fresh installation: the fallback \<^verbatim>\<open>[]\<close>, no pointer.\<close>

definition empty_ledger :: ledger where
  "empty_ledger =
     \<lparr>bought = [], forsale = [], sold = [], cash = [], sellers = [], buyers = [],
      seller_last = None, buyer_last = None\<rparr>"

text \<open>\<^verbatim>\<open>s || d\<close> on a string that may be missing: missing and empty both give \<open>d\<close>.\<close>

fun or_default :: "string option \<Rightarrow> string \<Rightarrow> string" where
  "or_default None d = d"
| "or_default (Some s) d = (if s = [] then d else s)"

text \<open>\<^verbatim>\<open>Array.prototype.findIndex\<close>; \<open>None\<close> is the result \<^verbatim>\<open>-1\<close>.\<close>

fun findIndex :: "('a \<Rightarrow> bool) \<Rightarrow> 'a list \<Rightarrow> nat option" where
  "findIndex p [] = None"
| "findIndex p (x # xs) = (if p x then Some 0 else map_option Suc (findIndex p xs))"

text \<open>\<^verbatim>\<open>xs.splice(idx, 1)\<close>: the array without the element at \<open>idx\<close>.\<close>

definition splice1 :: "nat \<Rightarrow> 'a list \<Rightarrow> 'a list" where
  "splice1 idx xs = take idx xs @ drop (Suc idx) xs"

text \<open>
  A JavaScript \<^verbatim>\<open>Set\<close> of strings, as the list \<^verbatim>\<open>Array.from\<close> makes of it: insertion
  order, no element twice.
\<close>

definition Set_add :: "string list \<Rightarrow> string \<Rightarrow> string list" where
  "Set_add xs x = (if x \<in> set xs then xs else xs @ [x])"

definition new_Set :: "string list \<Rightarrow> string list" where
  "new_Set xs = foldl Set_add [] xs"

definition Set_delete :: "string list \<Rightarrow> string \<Rightarrow> string list" where
  "Set_delete xs x = filter (\<lambda>y. y \<noteq> x) xs"

subsection \<open>Inventory page\<close>

text \<open>
  The \<^verbatim>\<open>addBoughtBtn\<close> handler (lines 1310-1366). \<open>chosenSeller\<close> is the seller settled by
  lines 1312-1317 (\<open>None\<close> for \<^verbatim>\<open>null\<close>; what \<^verbatim>\<open>chooseSellerFlow\<close> writes to the seller
  list when a new name is typed in is not part of this function); \<open>buy\<close>, \<open>ship\<close> and
  \<open>sell\<close> are the results of
  \<^verbatim>\<open>parseFloat\<close> (\<open>None\<close> for \<^verbatim>\<open>NaN\<close>); \<open>file\<close> is the chosen image, given by the name
  \<^verbatim>\<open>Util.deriveNameFromFile\<close> derives and the URL the upload returns.
\<close>

definition addBought ::
  "string option \<Rightarrow> rat option \<Rightarrow> rat option \<Rightarrow> rat option \<Rightarrow> (string \<times> string) option \<Rightarrow>
   string \<Rightarrow> nat \<Rightarrow> ledger \<Rightarrow> string option \<times> ledger" where
  "addBought chosenSeller buy ship sell file uid now s =
     (if or_default chosenSeller [] = [] then (Some ''Please select a seller.'', s)
      else
        (case (buy, file) of
           (Some b, Some (name, imageUrl)) \<Rightarrow>
             (let item =
                \<lparr>b_id = uid,
                 b_seller = or_default chosenSeller [],
                 b_name = name,
                 b_buy = b,
                 b_ship = (case ship of None \<Rightarrow> 0 | Some v \<Rightarrow> v),
                 b_sell = Some (case sell of None \<Rightarrow> b | Some v \<Rightarrow> v),
                 b_image = imageUrl,
                 b_createdAt = now\<rparr>
              in (None, s\<lparr>bought := item # bought s, seller_last := chosenSeller\<rparr>))
         | _ \<Rightarrow> (Some ''Fill buy price and choose an image.'', s)))"

text \<open>The \<^verbatim>\<open>.list-for-sale\<close> handler (lines 1191-1225); \<open>ident\<close> is \<^verbatim>\<open>listBtn.dataset.id\<close>.\<close>

definition listForSale :: "string \<Rightarrow> string \<Rightarrow> nat \<Rightarrow> ledger \<Rightarrow> string option \<times> ledger" where
  "listForSale ident uid now s =
     (case findIndex (\<lambda>x. b_id x = ident) (bought s) of
        None \<Rightarrow> (Some ''Item not found'', s)
      | Some idx \<Rightarrow>
          (let item = bought s ! idx;
               items = splice1 idx (bought s);
               priceDefault =
                 (case b_sell item of
                    Some v \<Rightarrow> v
                  | None \<Rightarrow> b_buy item + b_ship item);
               entry =
                 \<lparr>l_id = uid,
                  l_name = (if b_name item = [] then ''Card'' else b_name item),
                  l_price = priceDefault,
                  l_buy = b_buy item + b_ship item,
                  l_ship_in = Some (b_ship item),
                  l_seller = b_seller item,
                  l_image = b_image item,
                  l_createdAt = Some now,
                  l_buyer = None, l_soldAt = None, l_status = None\<rparr>
           in (Some ''Moved to For Sale.'', s\<lparr>bought := items, forsale := entry # forsale s\<rparr>)))"

text \<open>
  The rename branch of the Manage Sellers list (lines 1442-1461). \<open>nn\<close> is the trimmed
  answer to the prompt (\<open>None\<close> when it was cancelled). The set of the modal is the stored
  seller list, which every operation of the modal writes back.
\<close>

definition renameSeller :: "string \<Rightarrow> string option \<Rightarrow> ledger \<Rightarrow> string option \<times> ledger" where
  "renameSeller name nn s =
     (if or_default nn [] = [] \<or> or_default nn [] = name then (None, s)
      else
        (let new = or_default nn [];
             sellersSet = Set_add (Set_delete (new_Set (sellers s)) name) new
         in (Some ''Seller renamed.'',
             s\<lparr>sellers := sellersSet,
               bought := map (\<lambda>i. if b_seller i = name then i\<lparr>b_seller := new\<rparr> else i) (bought s),
               forsale := map (\<lambda>i. if l_seller i = name then i\<lparr>l_seller := new\<rparr> else i) (forsale s),
               seller_last := (if seller_last s = Some name then Some new else seller_last s)\<rparr>)))"

text \<open>
  The delete branch (lines 1462-1493). \<open>confirmed\<close> answers the \<^verbatim>\<open>confirm\<close> dialogue;
  \<open>reassignTo\<close> is the trimmed answer to the prompt.
\<close>

definition deleteSeller :: "string \<Rightarrow> bool \<Rightarrow> string option \<Rightarrow> ledger \<Rightarrow> string option \<times> ledger" where
  "deleteSeller name confirmed reassignTo s =
     (if \<not> confirmed then (None, s)
      else
        (let target = or_default reassignTo [];
             added = (if target \<noteq> [] then Set_add (new_Set (sellers s)) target
                      else new_Set (sellers s))
         in (Some ''Seller removed.'',
             s\<lparr>bought := map (\<lambda>i. if b_seller i = name then i\<lparr>b_seller := target\<rparr> else i) (bought s),
               forsale := map (\<lambda>i. if l_seller i = name then i\<lparr>l_seller := target\<rparr> else i) (forsale s),
               sellers := Set_delete added name,
               seller_last := (if seller_last s = Some name then None else seller_last s)\<rparr>)))"

subsection \<open>For Sale page\<close>

text \<open>The rename branch of the Manage Buyers list (lines 1624-1648).\<close>

definition renameBuyer :: "string \<Rightarrow> string option \<Rightarrow> ledger \<Rightarrow> string option \<times> ledger" where
  "renameBuyer name nn s =
     (if or_default nn [] = [] \<or> or_default nn [] = name then (None, s)
      else
        (let new = or_default nn [];
             buyersSet = Set_add (Set_delete (new_Set (buyers s)) name) new
         in (Some ''Buyer renamed.'',
             s\<lparr>buyers := buyersSet,
               sold := map (\<lambda>i. if or_default (l_buyer i) [] = name then i\<lparr>l_buyer := Some new\<rparr> else i) (sold s),
               forsale := map (\<lambda>i. if or_default (l_buyer i) [] = name then i\<lparr>l_buyer := Some new\<rparr> else i) (forsale s),
               buyer_last := (if buyer_last s = Some name then Some new else buyer_last s)\<rparr>)))"

text \<open>
  The delete branch (lines 1649-1662). Its \<^verbatim>\<open>confirm\<close> text says that existing SOLD/FS
  entries will keep the name: it asks for no reassignment and loads no collection.
\<close>

definition deleteBuyer :: "string \<Rightarrow> bool \<Rightarrow> ledger \<Rightarrow> string option \<times> ledger" where
  "deleteBuyer name confirmed s =
     (if \<not> confirmed then (None, s)
      else (Some ''Buyer removed.'',
            s\<lparr>buyers := Set_delete (new_Set (buyers s)) name,
              buyer_last := (if buyer_last s = Some name then None else buyer_last s)\<rparr>))"

text \<open>
  The \<^verbatim>\<open>.mark-sold\<close> handler from line 1802 on. \<open>ident\<close> is \<^verbatim>\<open>soldBtn.dataset.id\<close> and
  \<open>buyer\<close> the name that lines 1789-1801 settle (their own writes to the buyer list and to
  the last-buyer pointer are not part of this function).
\<close>

definition markSold :: "string \<Rightarrow> string \<Rightarrow> nat \<Rightarrow> ledger \<Rightarrow> string option \<times> ledger" where
  "markSold ident buyer now s =
     (case findIndex (\<lambda>x. l_id x = ident) (forsale s) of
        None \<Rightarrow> (None, s)
      | Some i \<Rightarrow>
          (let fs = splice1 i (forsale s);
               item = (forsale s ! i)
                 \<lparr>l_buyer := Some (if buyer = [] then ''Unknown'' else buyer),
                  l_soldAt := Some now,
                  l_status := Some ''Pending''\<rparr>
           in (None, s\<lparr>forsale := fs, sold := item # sold s\<rparr>)))"

subsection \<open>Sold page\<close>

text \<open>\<^verbatim>\<open>(i.status || "Pending") === "Paid"\<close>.\<close>

definition isPaid :: "listing \<Rightarrow> bool" where
  "isPaid i = (or_default (l_status i) ''Pending'' = ''Paid'')"

text \<open>The \<^verbatim>\<open>.mark-all-paid\<close> handler (lines 2166-2187); \<open>buyer\<close> is the block's buyer.\<close>

definition markAllPaid :: "string \<Rightarrow> ledger \<Rightarrow> string option \<times> ledger" where
  "markAllPaid buyer s =
     (let hit = (\<lambda>it. or_default (l_buyer it) ''Unknown'' = buyer \<and> \<not> isPaid it);
          changed = length (filter hit (sold s))
      in if changed = 0 then (Some ''Nothing to mark as paid.'', s)
         else (None, s\<lparr>sold := map (\<lambda>it. if hit it then it\<lparr>l_status := Some ''Paid''\<rparr> else it) (sold s)\<rparr>))"

text \<open>The \<^verbatim>\<open>.mark-paid\<close> handler (lines 2189-2204).\<close>

definition markPaid :: "string \<Rightarrow> ledger \<Rightarrow> string option \<times> ledger" where
  "markPaid ident s =
     (case findIndex (\<lambda>x. l_id x = ident) (sold s) of
        None \<Rightarrow> (Some ''Item not found'', s)
      | Some idx \<Rightarrow> (None, s\<lparr>sold := (sold s)[idx := (sold s ! idx)\<lparr>l_status := Some ''Paid''\<rparr>]\<rparr>))"

text \<open>The \<^verbatim>\<open>.delete-item\<close> handler of the Sold page (lines 2301-2316).\<close>

definition deleteSold :: "string \<Rightarrow> bool \<Rightarrow> ledger \<Rightarrow> string option \<times> ledger" where
  "deleteSold ident confirmed s =
     (if \<not> confirmed then (None, s)
      else
        (case findIndex (\<lambda>x. l_id x = ident) (sold s) of
           None \<Rightarrow> (Some ''Item not found'', s)
         | Some idx \<Rightarrow> (None, s\<lparr>sold := splice1 idx (sold s)\<rparr>)))"

text \<open>
  The \<^verbatim>\<open>#okAddCash\<close> handler of the Add to Cash modal (lines 2277-2296): \<open>src\<close> is the
  selected source, \<open>amt\<close> the result of \<^verbatim>\<open>parseFloat\<close>, \<open>note\<close> the trimmed note. The
  amount of the entry is what \<^verbatim>\<open>JSON.stringify\<close> leaves of the number when the collection
  is saved.
\<close>

definition okAddCash ::
  "string \<Rightarrow> number \<Rightarrow> string \<Rightarrow> string \<Rightarrow> nat \<Rightarrow> ledger \<Rightarrow> string option \<times> ledger" where
  "okAddCash src amt note uid now s =
     (if src = [] \<or> not_positive amt then (Some ''Please set a valid source/amount.'', s)
      else (Some ''Added to Cash On Hand.'',
            s\<lparr>cash := \<lparr>c_id = uid, c_source = src, c_amount = stored_number amt, c_note = note,
                         c_createdAt = now\<rparr> # cash s\<rparr>))"

text \<open>
  The \<^verbatim>\<open>.add-to-cash\<close> handler (lines 2232-2299): the modal opens only for a buyer whose
  records are all paid, and its Add button runs \<open>okAddCash\<close>.
\<close>

definition addToCash ::
  "string \<Rightarrow> string \<Rightarrow> number \<Rightarrow> string \<Rightarrow> string \<Rightarrow> nat \<Rightarrow> ledger \<Rightarrow> string option \<times> ledger" where
  "addToCash buyer src amt note uid now s =
     (let list = filter (\<lambda>i. or_default (l_buyer i) ''Unknown'' = buyer) (sold s)
      in if \<not> list_all isPaid list then (Some ''This buyer is not fully paid yet.'', s)
         else okAddCash src amt note uid now s)"

subsection \<open>Cash page\<close>

text \<open>
  \<^verbatim>\<open>calcSoldRevenue\<close> (lines 2339-2362): the pair of \<^verbatim>\<open>paidRevenue\<close> and
  \<^verbatim>\<open>pendingRevenue\<close>, each a \<^verbatim>\<open>reduce\<close> that adds the prices in list order from \<open>0\<close>.
\<close>

definition calcSoldRevenue :: "ledger \<Rightarrow> number \<times> number" where
  "calcSoldRevenue s =
     (let paidItems = filter isPaid (sold s);
          pendingItems = filter (\<lambda>i. \<not> isPaid i) (sold s)
      in (foldl (\<lambda>acc i. js_add acc (Finite (l_price i))) (Finite 0) paidItems,
          foldl (\<lambda>acc i. js_add acc (Finite (l_price i))) (Finite 0) pendingItems))"

text \<open>\<^verbatim>\<open>Number(i.amount || 0)\<close> on a stored amount.\<close>

fun or_zero :: "rat option \<Rightarrow> rat" where
  "or_zero None = 0"
| "or_zero (Some x) = x"

text \<open>\<^verbatim>\<open>totals[k] || 0\<close> on the \<^verbatim>\<open>totals\<close> object; a missing key is \<^verbatim>\<open>undefined\<close>.\<close>

fun total_or_zero :: "number option \<Rightarrow> number" where
  "total_or_zero None = Finite 0"
| "total_or_zero (Some x) = number_or_zero x"

text \<open>
  The \<^verbatim>\<open>totals\<close> object of \<^verbatim>\<open>Cash.render\<close> (lines 2372-2375), keyed by source: each
  entry is added, in list order, to the total of its source.
\<close>

definition cash_totals :: "cash_entry list \<Rightarrow> (string \<rightharpoonup> number)" where
  "cash_totals items =
     foldl (\<lambda>totals i.
              totals(c_source i \<mapsto>
                js_add (total_or_zero (totals (c_source i))) (Finite (or_zero (c_amount i)))))
       [''GCash'' \<mapsto> Finite 0, ''SeaBank'' \<mapsto> Finite 0, ''Cash'' \<mapsto> Finite 0] items"

text \<open>\<^verbatim>\<open>onHandTotal\<close> (lines 2377-2378): the three totals added from left to right.\<close>

definition onHandTotal :: "ledger \<Rightarrow> number" where
  "onHandTotal s =
     (let totals = cash_totals (cash s)
      in js_add (js_add (total_or_zero (totals ''GCash'')) (total_or_zero (totals ''SeaBank'')))
           (total_or_zero (totals ''Cash'')))"

text \<open>The \<^verbatim>\<open>grand\<close> of \<^verbatim>\<open>Cash.render\<close> (line 2389).\<close>

definition grand :: "ledger \<Rightarrow> number" where
  "grand s = js_add (onHandTotal s) (fst (calcSoldRevenue s))"

text \<open>
  The \<^verbatim>\<open>addCashBtn\<close> and \<^verbatim>\<open>deductCashBtn\<close> handlers (lines 2453-2502); \<open>source\<close>,
  \<open>amount\<close> and \<open>note\<close> are what \<^verbatim>\<open>readInputs\<close> returns, the amount being the result of
  \<^verbatim>\<open>parseFloat\<close> on the text of the field with its commas removed. The entry is written
  with \<^verbatim>\<open>Storage.save\<close>, so its amount is what \<^verbatim>\<open>JSON.stringify\<close> leaves of the number.
\<close>

definition addCash ::
  "string \<Rightarrow> number \<Rightarrow> string \<Rightarrow> string \<Rightarrow> nat \<Rightarrow> ledger \<Rightarrow> string option \<times> ledger" where
  "addCash source amount note uid now s =
     (if source = [] then (Some ''Please select a source.'', s)
      else if not_positive amount then (Some ''Please enter a valid amount.'', s)
      else (None,
            s\<lparr>cash := \<lparr>c_id = uid, c_source = source, c_amount = stored_number amount,
                         c_note = note, c_createdAt = now\<rparr> # cash s\<rparr>))"

definition deductCash ::
  "string \<Rightarrow> number \<Rightarrow> string \<Rightarrow> string \<Rightarrow> nat \<Rightarrow> ledger \<Rightarrow> string option \<times> ledger" where
  "deductCash source amount note uid now s =
     (if source = [] then (Some ''Please select a source.'', s)
      else if not_positive amount then (Some ''Please enter a valid amount to deduct.'', s)
      else (None,
            s\<lparr>cash := \<lparr>c_id = uid, c_source = source, c_amount = stored_number (neg_abs amount),
                         c_note = (if note = [] then ''Purchase deduction'' else note),
                         c_createdAt = now\<rparr> # cash s\<rparr>))"

text \<open>The \<^verbatim>\<open>.delete-cash\<close> handler (lines 2505-2517).\<close>

definition deleteCash :: "string \<Rightarrow> ledger \<Rightarrow> string option \<times> ledger" where
  "deleteCash ident s =
     (case findIndex (\<lambda>x. c_id x = ident) (cash s) of
        None \<Rightarrow> (None, s)
      | Some idx \<Rightarrow> (None, s\<lparr>cash := splice1 idx (cash s)\<rparr>))"

text \<open>
  The sources a cash entry can get: the options of the \<^verbatim>\<open>c_source\<close> select that
  \<^verbatim>\<open>bindEvents\<close> fills in (lines 2436-2441, the first with the empty value) and of the
  \<^verbatim>\<open>cashSrc\<close> select of the modal (lines 2253-2257).
\<close>

definition c_source_options :: "string list" where
  "c_source_options = [[], ''GCash'', ''SeaBank'', ''Cash'']"

definition cashSrc_options :: "string list" where
  "cashSrc_options = [''GCash'', ''SeaBank'', ''Cash'']"

text \<open>
  The states that the handlers of the four pages reach from a fresh installation, in any
  order and with any inputs; only the source of a cash entry is bound to the options that
  its select offers.
\<close>

inductive reachable :: "ledger \<Rightarrow> bool" where
  fresh: "reachable empty_ledger"
| addBought: "reachable s \<Longrightarrow> reachable (snd (addBought chosenSeller buy ship sell file uid now s))"
| listForSale: "reachable s \<Longrightarrow> reachable (snd (listForSale ident uid now s))"
| renameSeller: "reachable s \<Longrightarrow> reachable (snd (renameSeller name nn s))"
| deleteSeller: "reachable s \<Longrightarrow> reachable (snd (deleteSeller name confirmed reassignTo s))"
| renameBuyer: "reachable s \<Longrightarrow> reachable (snd (renameBuyer name nn s))"
| deleteBuyer: "reachable s \<Longrightarrow> reachable (snd (deleteBuyer name confirmed s))"
| markSold: "reachable s \<Longrightarrow> reachable (snd (markSold ident buyer now s))"
| markAllPaid: "reachable s \<Longrightarrow> reachable (snd (markAllPaid buyer s))"
| markPaid: "reachable s \<Longrightarrow> reachable (snd (markPaid ident s))"
| deleteSold: "reachable s \<Longrightarrow> reachable (snd (deleteSold ident confirmed s))"
| addToCash: "reachable s \<Longrightarrow> src \<in> set cashSrc_options \<Longrightarrow>
    reachable (snd (addToCash buyer src amt note uid now s))"
| addCash: "reachable s \<Longrightarrow> source \<in> set c_source_options \<Longrightarrow>
    reachable (snd (addCash source amount note uid now s))"
| deductCash: "reachable s \<Longrightarrow> source \<in> set c_source_options \<Longrightarrow>
    reachable (snd (deductCash source amount note uid now s))"
| deleteCash: "reachable s \<Longrightarrow> reachable (snd (deleteCash ident s))"

section \<open>The two backup endpoints\<close>

text \<open>
  \<^verbatim>\<open>src/api/twicks-backup.js\<close> (the Vercel function \<^verbatim>\<open>handler\<close>) and
  \<^verbatim>\<open>src/unnamed/part_000\<close> (the Netlify function \<^verbatim>\<open>exports.handler\<close>) both work on the
  table \<^verbatim>\<open>twicks_backups\<close>. The table's declaration is not part of the repository, so
  what it decides is a parameter: the \<open>id\<close> and \<open>created_at\<close> that an insert assigns are
  inputs of the handlers (\<open>new_id\<close>, \<open>now\<close>), and \<open>payload_not_null\<close> says whether the
  \<open>payload\<close> column refuses \<^verbatim>\<open>NULL\<close>. \<open>query_error\<close> is the message of the error with which
  every connection or query fails, if the database is down.
\<close>

record backup_row =
  row_id :: nat
  row_created_at :: nat
  row_label :: json
  row_payload :: json

record database =
  twicks_backups :: "backup_row list"
  query_error :: "string option"
  payload_not_null :: bool

text \<open>
  A request: the HTTP method and the JSON document of the body, if there is one
  (\<^verbatim>\<open>req.body\<close> as Vercel parses it, \<^verbatim>\<open>event.body\<close> as the text Netlify hands over).
\<close>

record request =
  req_method :: string
  req_body :: "json option"

datatype body = NoBody | JsonBody json | TextBody string

record response =
  statusCode :: nat
  headers :: "(string \<times> string) list"
  body :: body

text \<open>A row as the JSON object \<^verbatim>\<open>{ id, created_at, label, payload }\<close>.\<close>

definition row_json :: "backup_row \<Rightarrow> json" where
  "row_json r =
     JObj [(''id'', JNum (of_nat (row_id r))), (''created_at'', JNum (of_nat (row_created_at r))),
           (''label'', row_label r), (''payload'', row_payload r)]"

text \<open>
  \<^verbatim>\<open>INSERT INTO twicks_backups ... RETURNING\<close>: the outcome is the inserted row. A
  parameter that is \<^verbatim>\<open>undefined\<close> is sent as \<^verbatim>\<open>NULL\<close>.
\<close>

definition insert_backup ::
  "json \<Rightarrow> json option \<Rightarrow> nat \<Rightarrow> nat \<Rightarrow> database \<Rightarrow> (string + backup_row) \<times> database" where
  "insert_backup label payload new_id now db =
     (case query_error db of
        Some msg \<Rightarrow> (Inl msg, db)
      | None \<Rightarrow>
          if payload_not_null db \<and> nullish_opt payload JNull = JNull
          then (Inl ''null value in column payload violates not-null constraint'', db)
          else
            (let row = \<lparr>row_id = new_id, row_created_at = now, row_label = label,
                        row_payload = nullish_opt payload JNull\<rparr>
             in (Inr row, db\<lparr>twicks_backups := twicks_backups db @ [row]\<rparr>)))"

text \<open>
  \<^verbatim>\<open>ORDER BY created_at DESC LIMIT 1\<close> over the rows; among rows of one \<open>created_at\<close>,
  which SQL leaves open, the model takes the earliest inserted.
\<close>

fun newest :: "backup_row list \<Rightarrow> backup_row option" where
  "newest [] = None"
| "newest (r # rs) =
     (case newest rs of
        None \<Rightarrow> Some r
      | Some m \<Rightarrow> if row_created_at r < row_created_at m then Some m else Some r)"

definition select_latest :: "database \<Rightarrow> string + backup_row option" where
  "select_latest db =
     (case query_error db of
        Some msg \<Rightarrow> Inl msg
      | None \<Rightarrow> Inr (newest (twicks_backups db)))"

text \<open>\<^verbatim>\<open>const { payload, label } = v\<close>: it throws on \<^verbatim>\<open>null\<close>.\<close>

definition destructure :: "json \<Rightarrow> (json option \<times> json option) outcome" where
  "destructure v =
     and_then (property v ''payload'') (\<lambda>payload.
     and_then (property v ''label'') (\<lambda>label. Returned (payload, label)))"

text \<open>\<^verbatim>\<open>label || "manual"\<close>.\<close>

fun label_or_manual :: "json option \<Rightarrow> json" where
  "label_or_manual None = JStr ''manual''"
| "label_or_manual (Some l) = (if truthy l then l else JStr ''manual'')"

text \<open>\<^verbatim>\<open>!payload\<close>.\<close>

fun missing :: "json option \<Rightarrow> bool" where
  "missing None = True"
| "missing (Some v) = (\<not> truthy v)"

subsection \<open>The Vercel function\<close>

definition cors :: "(string \<times> string) list" where
  "cors = [(''Access-Control-Allow-Origin'', ''*''),
           (''Access-Control-Allow-Methods'', ''GET,POST,OPTIONS''),
           (''Access-Control-Allow-Headers'', ''Content-Type'')]"

text \<open>The \<^verbatim>\<open>catch\<close> of \<^verbatim>\<open>handler\<close> (lines 111-117).\<close>

definition vercel_500 :: "string \<Rightarrow> response" where
  "vercel_500 msg =
     \<lparr>statusCode = 500, headers = cors,
      body = JsonBody (JObj [(''success'', JBool False),
        (''error'', JStr (if msg = [] then ''Internal server error'' else msg))])\<rparr>"

text \<open>
  \<^verbatim>\<open>saveBackup(label, payload)\<close> (lines 9-24) sends \<^verbatim>\<open>label || null\<close> and the payload.
\<close>

definition saveBackup ::
  "json \<Rightarrow> json \<Rightarrow> nat \<Rightarrow> nat \<Rightarrow> database \<Rightarrow> (string + backup_row) \<times> database" where
  "saveBackup label payload new_id now db =
     insert_backup (if truthy label then label else JNull) (Some payload) new_id now db"

definition getLatestBackup :: "database \<Rightarrow> string + backup_row option" where
  "getLatestBackup db = select_latest db"

text \<open>\<^verbatim>\<open>handler(req, res)\<close> (lines 51-118): the response sent and the database after it.\<close>

definition handler :: "request \<Rightarrow> nat \<Rightarrow> nat \<Rightarrow> database \<Rightarrow> response \<times> database" where
  "handler req new_id now db =
     (if req_method req = ''OPTIONS'' then (\<lparr>statusCode = 200, headers = cors, body = NoBody\<rparr>, db)
      else if req_method req = ''POST'' then
        (case destructure (case req_body req of
                             None \<Rightarrow> JObj []
                           | Some b \<Rightarrow> if truthy b then b else JObj []) of
           Threw \<Rightarrow> (vercel_500 ''Cannot destructure'', db)
         | Returned (payload, label) \<Rightarrow>
             if missing payload then
               (\<lparr>statusCode = 400, headers = cors,
                 body = JsonBody (JObj [(''success'', JBool False),
                                        (''error'', JStr ''Missing payload'')])\<rparr>, db)
             else
               (case saveBackup (label_or_manual label) (nullish_opt payload JNull) new_id now db of
                  (Inl msg, db') \<Rightarrow> (vercel_500 msg, db')
                | (Inr row, db') \<Rightarrow>
                    (\<lparr>statusCode = 200, headers = cors,
                      body = JsonBody (JObj [(''success'', JBool True),
                                             (''backup'', row_json row)])\<rparr>, db')))
      else if req_method req = ''GET'' then
        (case getLatestBackup db of
           Inl msg \<Rightarrow> (vercel_500 msg, db)
         | Inr None \<Rightarrow>
             (\<lparr>statusCode = 200, headers = cors,
               body = JsonBody (JObj [(''success'', JBool False), (''backup'', JNull),
                                      (''error'', JStr ''No backups found'')])\<rparr>, db)
         | Inr (Some row) \<Rightarrow>
             (\<lparr>statusCode = 200, headers = cors,
               body = JsonBody (JObj [(''success'', JBool True),
                                      (''backup'', row_json row)])\<rparr>, db))
      else
        (\<lparr>statusCode = 405, headers = cors,
          body = JsonBody (JObj [(''success'', JBool False),
                                 (''error'', JStr ''Method not allowed'')])\<rparr>, db))"

subsection \<open>The Netlify function\<close>

text \<open>The \<^verbatim>\<open>catch\<close> of \<^verbatim>\<open>exports.handler\<close> (lines 54-59).\<close>

definition netlify_500 :: "string \<Rightarrow> response" where
  "netlify_500 msg =
     \<lparr>statusCode = 500, headers = [], body = JsonBody (JObj [(''error'', JStr msg)])\<rparr>"

text \<open>
  \<^verbatim>\<open>exports.handler(event, context)\<close> (lines 4-63). A returned body
  \<^verbatim>\<open>JSON.stringify(v)\<close> is \<open>JsonBody v\<close>. Without a body, \<^verbatim>\<open>JSON.parse(event.body)\<close> is
  \<^verbatim>\<open>null\<close> (or throws), and the destructuring throws.
\<close>

definition exports_handler :: "request \<Rightarrow> nat \<Rightarrow> nat \<Rightarrow> database \<Rightarrow> response \<times> database" where
  "exports_handler event new_id now db =
     (if req_method event = ''POST'' then
        (case destructure (case req_body event of None \<Rightarrow> JNull | Some b \<Rightarrow> b) of
           Threw \<Rightarrow> (netlify_500 ''Cannot destructure'', db)
         | Returned (payload, label) \<Rightarrow>
             (case insert_backup (label_or_manual label) payload new_id now db of
                (Inl msg, db') \<Rightarrow> (netlify_500 msg, db')
              | (Inr row, db') \<Rightarrow>
                  (\<lparr>statusCode = 200, headers = [],
                    body = JsonBody (JObj [(''success'', JBool True),
                      (''saved'', JObj [(''id'', JNum (of_nat (row_id row))),
                                        (''created_at'', JNum (of_nat (row_created_at row)))])])\<rparr>,
                   db')))
      else if req_method event = ''GET'' then
        (case select_latest db of
           Inl msg \<Rightarrow> (netlify_500 msg, db)
         | Inr row \<Rightarrow>
             (\<lparr>statusCode = 200, headers = [],
               body = JsonBody (JObj [(''success'', JBool True),
                 (''backup'', (case row of None \<Rightarrow> JNull | Some r \<Rightarrow> row_json r))])\<rparr>, db))
      else (\<lparr>statusCode = 405, headers = [], body = TextBody ''Method not allowed''\<rparr>, db))"

section \<open>Concrete states for the examples\<close>

text \<open>A browser in which both stores work and are empty.\<close>

definition working_browser :: storage where
  "working_browser =
     \<lparr>localStorage = Map.empty, getItem_throws = False, setItem_throws = False,
      idb_opens = True, idb_store = Map.empty, idb_get_throws = False, idb_get_errors = False,
      idb_put_errors = False, dirty = False, markDirty_calls = 0\<rparr>"

text \<open>A browser whose \<^verbatim>\<open>localStorage\<close> refuses every write (quota), IndexedDB working.\<close>

definition quota_browser :: storage where
  "quota_browser = working_browser\<lparr>setItem_throws := True\<rparr>"

text \<open>
  The cash document is unreadable text in \<^verbatim>\<open>localStorage\<close>, while IndexedDB holds a
  cash list under the same key.
\<close>

definition corrupt_browser :: storage where
  "corrupt_browser =
     working_browser\<lparr>localStorage := [KEYS_CASH \<mapsto> Malformed],
                      idb_store := [KEYS_CASH \<mapsto> JArr [JNum 1]]\<rparr>"

text \<open>\<^verbatim>\<open>localStorage\<close> cannot be read; IndexedDB holds a cash list.\<close>

definition blocked_browser :: storage where
  "blocked_browser =
     working_browser\<lparr>getItem_throws := True, idb_store := [KEYS_CASH \<mapsto> JArr [JNum 1]]\<rparr>"

text \<open>
  \<^verbatim>\<open>localStorage\<close> has nothing under the key and the IndexedDB read throws (as
  \<^verbatim>\<open>db.transaction\<close> does on a connection that is closing).
\<close>

definition throwing_browser :: storage where
  "throwing_browser = working_browser\<lparr>idb_get_throws := True\<rparr>"

text \<open>\<^verbatim>\<open>localStorage\<close> holds a cash list.\<close>

definition stocked_browser :: storage where
  "stocked_browser = working_browser\<lparr>localStorage := [KEYS_CASH \<mapsto> Serialized (JArr [JNum 2])]\<rparr>"

text \<open>
  One card entered on the Inventory page: seller Ana, buy 100, ship-in 10, the sell field
  left empty.
\<close>

definition intake_example :: ledger where
  "intake_example =
     snd (addBought (Some ''Ana'') (Some 100) (Some 10) None (Some (''card'', ''img''))
            ''a1'' 1 empty_ledger)"

text \<open>The card listed for sale, then sold to Xavier, then marked paid.\<close>

definition listed_example :: ledger where
  "listed_example = snd (listForSale ''a1'' ''f1'' 2 intake_example)"

definition sold_example :: ledger where
  "sold_example = snd (markSold ''f1'' ''Xavier'' 3 listed_example)"

definition paid_example :: ledger where
  "paid_example = snd (markPaid ''f1'' sold_example)"

text \<open>After that, 50 added to GCash and 20 deducted from Cash.\<close>

definition cash_example :: ledger where
  "cash_example =
     snd (deductCash ''Cash'' (Finite 20) [] ''c2'' 5
            (snd (addCash ''GCash'' (Finite 50) ''float'' ''c1'' 4 paid_example)))"

text \<open>
  Three cash entries with fractional amounts, entered last to first: GCash 0.1, Cash 0.1,
  GCash 1.1. The amounts are the doubles that \<^verbatim>\<open>parseFloat\<close> returns for the texts
  \<^verbatim>\<open>0.1\<close> and \<^verbatim>\<open>1.1\<close>.
\<close>

definition double_0_1 :: rat where
  "double_0_1 = 3602879701896397 / 36028797018963968"

definition double_1_1 :: rat where
  "double_1_1 = 2476979795053773 / 2251799813685248"

definition rounding_example :: ledger where
  "rounding_example =
     snd (addCash ''GCash'' (Finite double_0_1) [] ''c3'' 3
       (snd (addCash ''Cash'' (Finite double_0_1) [] ''c2'' 2
         (snd (addCash ''GCash'' (Finite double_1_1) [] ''c1'' 1 empty_ledger)))))"

text \<open>The text \<^verbatim>\<open>Infinity\<close> typed into the amount field of the Cash page.\<close>

definition infinity_example :: ledger where
  "infinity_example = snd (addCash ''GCash'' Infinity [] ''c1'' 1 empty_ledger)"

text \<open>
  A listing of Ana's and a second card of hers still in the inventory; Ana is in the
  seller list and is the seller used last.
\<close>

definition two_stage_example :: ledger where
  "two_stage_example =
     (snd (addBought (Some ''Ana'') (Some 40) None (Some 60) (Some (''card2'', ''img2''))
             ''a2'' 3 listed_example))\<lparr>sellers := [''Ana'']\<rparr>"

text \<open>The sold card, with Xavier in the buyer list.\<close>

definition buyer_example :: ledger where
  "buyer_example = sold_example\<lparr>buyers := [''Xavier''], buyer_last := Some ''Xavier''\<rparr>"


text \<open>
  The backup table, empty and with two rows, and the two requests that the client of
  \<^verbatim>\<open>src/twicks.js\<close> sends (\<^verbatim>\<open>backupToCloud\<close>, \<^verbatim>\<open>restoreFromCloud\<close>).
\<close>

definition empty_db :: database where
  "empty_db = \<lparr>twicks_backups = [], query_error = None, payload_not_null = True\<rparr>"

definition two_row_db :: database where
  "two_row_db =
     empty_db\<lparr>twicks_backups :=
       [\<lparr>row_id = 1, row_created_at = 10, row_label = JStr ''manual'',
         row_payload = JObj [(''localStorage'', JObj [])]\<rparr>,
        \<lparr>row_id = 2, row_created_at = 20, row_label = JStr ''manual'',
         row_payload = JObj [(''localStorage'', JObj [(''twicks_cash_v1'', JStr ''[]'')])]\<rparr>]\<rparr>"

definition post_request :: request where
  "post_request =
     \<lparr>req_method = ''POST'',
      req_body = Some (JObj [(''payload'', JObj [(''localStorage'', JObj [])]),
                             (''label'', JStr ''manual'')])\<rparr>"

definition get_request :: request where
  "get_request = \<lparr>req_method = ''GET'', req_body = None\<rparr>"

definition delete_request :: request where
  "delete_request = \<lparr>req_method = ''DELETE'', req_body = None\<rparr>"

section \<open>Properties of the storage layer\<close>

lemma Storage_save_unfold:
  "Storage_save key val s =
    (if \<not> setItem_throws s then
       (Returned (),
        markDirty (markDirty
          (s\<lparr>localStorage := (localStorage s)(key \<mapsto> Serialized (nullish val (JArr [])))\<rparr>)))
     else if \<not> idb_opens s then (Returned (), markDirty (markDirty s))
     else if idb_put_errors s then (Threw, s)
     else (Returned (),
           markDirty (markDirty (s\<lparr>idb_store := (idb_store s)(key \<mapsto> nullish val (JArr []))\<rparr>))))"
  by (simp add: Storage_save_def patchedSave_def originalSave_def localStorage_setItem_def
      idbSet_def JSON_stringify_def)

text \<open>
  Every save that returns has called \<^verbatim>\<open>markDirty\<close> twice, one call per installed hook; a
  save that rejects has called it not at all.
\<close>

lemma Storage_save_markDirty_calls:
  "markDirty_calls (snd (Storage_save key val s)) =
     markDirty_calls s + (if fst (Storage_save key val s) = Returned () then 2 else 0)"
  by (simp add: Storage_save_unfold markDirty_def)

text \<open>
  C3 (the code at the failing input). Saving the empty cash list in a working browser
  returns with two calls of \<^verbatim>\<open>AutoBackup.markDirty\<close>, not one; so does the save that
  succeeds only through IndexedDB.
\<close>

theorem Storage_save_notifies_twice:
  "markDirty_calls working_browser = 0 \<and>
   fst (Storage_save KEYS_CASH (JArr []) working_browser) = Returned () \<and>
   markDirty_calls (snd (Storage_save KEYS_CASH (JArr []) working_browser)) = 2 \<and>
   markDirty_calls quota_browser = 0 \<and>
   fst (Storage_save KEYS_CASH (JArr []) quota_browser) = Returned () \<and>
   idb_store (snd (Storage_save KEYS_CASH (JArr []) quota_browser)) KEYS_CASH = Some (JArr []) \<and>
   markDirty_calls (snd (Storage_save KEYS_CASH (JArr []) quota_browser)) = 2"
  by (simp add: Storage_save_unfold markDirty_def working_browser_def quota_browser_def)

text \<open>
  C4 as stated fails twice. Where the text in \<^verbatim>\<open>localStorage\<close> does not parse,
  \<^verbatim>\<open>Storage.load\<close> returns the fallback although IndexedDB holds a value under the key.
  And where the key is absent from \<^verbatim>\<open>localStorage\<close> and the IndexedDB read throws, the
  load throws (its promise rejects).
\<close>

theorem Storage_load_parse_error_counterexample:
  "localStorage_getItem KEYS_CASH corrupt_browser = Returned (Some Malformed) \<and>
   JSON_parse Malformed = Threw \<and>
   idbGet KEYS_CASH corrupt_browser = Returned (Some (JArr [JNum 1])) \<and>
   Storage_load KEYS_CASH (JArr []) corrupt_browser = Returned (JArr []) \<and>
   Storage_load KEYS_CASH (JArr []) corrupt_browser \<noteq> Returned (JArr [JNum 1]) \<and>
   localStorage_getItem KEYS_CASH throwing_browser = Returned None \<and>
   idbGet KEYS_CASH throwing_browser = Threw \<and>
   Storage_load KEYS_CASH (JArr []) throwing_browser = Threw"
  by (simp add: Storage_load_def localStorage_getItem_def idbGet_def corrupt_browser_def
      throwing_browser_def working_browser_def)

text \<open>
  C4 (amended). For every key, fallback and browser state \<^verbatim>\<open>Storage.load\<close> reads
  \<^verbatim>\<open>localStorage\<close> first: a value that parses is returned (the fallback in place of
  \<^verbatim>\<open>null\<close>); text that does not parse gives the fallback at once, without a look at
  IndexedDB; when the read throws or the key is absent, the result is what IndexedDB
  holds under the same key, and the fallback when IndexedDB does not open, its request
  fails or it has nothing. The load does not throw as long as the calls of the IndexedDB
  read do not throw themselves.
\<close>

theorem Storage_load_cases:
  "(\<not> getItem_throws s \<and> localStorage s key = Some (Serialized v) \<longrightarrow>
      Storage_load key fallback s = Returned (nullish v fallback)) \<and>
   (\<not> getItem_throws s \<and> localStorage s key = Some Malformed \<longrightarrow>
      Storage_load key fallback s = Returned fallback) \<and>
   ((getItem_throws s \<or> localStorage s key = None) \<and> \<not> (idb_opens s \<and> idb_get_throws s) \<longrightarrow>
      Storage_load key fallback s =
        Returned (nullish_opt
          (if idb_opens s \<and> \<not> idb_get_errors s then idb_store s key else None) fallback)) \<and>
   ((getItem_throws s \<or> localStorage s key = None) \<and>
    (\<not> idb_opens s \<or> \<not> idb_get_throws s \<and> (idb_get_errors s \<or> idb_store s key = None)) \<longrightarrow>
      Storage_load key fallback s = Returned fallback) \<and>
   (\<not> (idb_opens s \<and> idb_get_throws s) \<longrightarrow> (\<exists>r. Storage_load key fallback s = Returned r))"
  by (auto simp: Storage_load_def localStorage_getItem_def idbGet_def
      split: option.splits raw.splits outcome.splits)

theorem Storage_load_cases_witness:
  "Storage_load KEYS_CASH (JArr []) stocked_browser = Returned (JArr [JNum 2]) \<and>
   Storage_load KEYS_CASH (JArr []) corrupt_browser = Returned (JArr []) \<and>
   Storage_load KEYS_CASH (JArr []) blocked_browser = Returned (JArr [JNum 1]) \<and>
   Storage_load KEYS_CASH (JArr []) working_browser = Returned (JArr []) \<and>
   \<not> (idb_opens working_browser \<and> idb_get_throws working_browser)"
  using Storage_load_cases [of stocked_browser KEYS_CASH "JArr [JNum 2]" "JArr []"]
    Storage_load_cases [of corrupt_browser KEYS_CASH JNull "JArr []"]
    Storage_load_cases [of blocked_browser KEYS_CASH JNull "JArr []"]
    Storage_load_cases [of working_browser KEYS_CASH JNull "JArr []"]
  by (simp add: stocked_browser_def corrupt_browser_def blocked_browser_def working_browser_def)

subsection \<open>Restoring a snapshot\<close>

lemma truthy_nullish: "truthy v \<Longrightarrow> nullish v d = v"
  by (cases v) simp_all

lemma load_after_save:
  assumes "Storage_load_default k1 s = Returned v1" and "truthy v1"
  shows "Storage_load_default k (snd (Storage_save k1 v1 s)) = Storage_load_default k s"
  using assms
  by (auto simp: Storage_load_default_def Storage_load_def Storage_save_unfold markDirty_def
      localStorage_getItem_def idbGet_def truthy_nullish split: option.splits raw.splits if_splits)

lemma save_flags:
  "setItem_throws (snd (Storage_save k v s)) = setItem_throws s"
  "idb_opens (snd (Storage_save k v s)) = idb_opens s"
  "idb_put_errors (snd (Storage_save k v s)) = idb_put_errors s"
  by (simp_all add: Storage_save_unfold markDirty_def)

lemma restore_field_flags:
  "setItem_throws (snd (restore_field d n k s)) = setItem_throws s"
  "idb_opens (snd (restore_field d n k s)) = idb_opens s"
  "idb_put_errors (snd (restore_field d n k s)) = idb_put_errors s"
  by (simp_all add: restore_field_def save_flags split: outcome.splits option.splits)

lemma restore_fields_flags:
  "setItem_throws (snd (restore_fields d fks s)) = setItem_throws s \<and>
   idb_opens (snd (restore_fields d fks s)) = idb_opens s \<and>
   idb_put_errors (snd (restore_fields d fks s)) = idb_put_errors s"
proof (induction fks arbitrary: s)
  case Nil
  show ?case by simp
next
  case (Cons a fks)
  obtain n k where a: "a = (n, k)" by (cases a)
  obtain r s' where r: "restore_field d n k s = (r, s')" by (cases "restore_field d n k s")
  have fl: "setItem_throws s' = setItem_throws s" "idb_opens s' = idb_opens s" "idb_put_errors s' = idb_put_errors s"
    using restore_field_flags[of d n k s] r by simp_all
  show ?case
  proof (cases r)
    case Threw
    then show ?thesis using a r fl by simp
  next
    case (Returned u)
    then show ?thesis using a r fl Cons.IH[of s'] by simp
  qed
qed

lemma save_effect:
  "\<exists>M1 M2. \<forall>s. setItem_throws s = a \<and> idb_opens s = b \<and> idb_put_errors s = c \<longrightarrow>
      live (snd (Storage_save k v s)) = (localStorage s ++ M1, idb_store s ++ M2)"
proof (cases a)
  case False
  show ?thesis
    by (rule exI[of _ "[k \<mapsto> Serialized (nullish v (JArr []))]"], rule exI[of _ Map.empty])
       (simp add: False Storage_save_unfold live_def markDirty_def)
next
  case True
  show ?thesis
  proof (cases "b \<and> \<not> c")
    case True
    show ?thesis
      by (rule exI[of _ Map.empty], rule exI[of _ "[k \<mapsto> nullish v (JArr [])]"])
         (use True \<open>a\<close> in \<open>simp add: Storage_save_unfold live_def markDirty_def\<close>)
  next
    case False
    show ?thesis
      by (rule exI[of _ Map.empty], rule exI[of _ Map.empty])
         (use False \<open>a\<close> in \<open>auto simp add: Storage_save_unfold live_def markDirty_def\<close>)
  qed
qed

lemma restore_field_effect:
  "\<exists>M1 M2. \<forall>s. setItem_throws s = a \<and> idb_opens s = b \<and> idb_put_errors s = c \<longrightarrow>
      live (snd (restore_field d n k s)) = (localStorage s ++ M1, idb_store s ++ M2)"
proof (cases "\<exists>v. property d n = Returned (Some v) \<and> truthy v")
  case True
  then obtain v where v: "property d n = Returned (Some v)" "truthy v" by blast
  from save_effect[of a b c k v] show ?thesis
    by (simp add: restore_field_def v)
next
  case False
  have "\<forall>s. live (snd (restore_field d n k s)) = (localStorage s ++ Map.empty, idb_store s ++ Map.empty)"
    using False by (auto simp: restore_field_def live_def split: outcome.splits option.splits)
  then show ?thesis by blast
qed

lemma restore_field_fst:
  "setItem_throws s = a \<and> idb_opens s = b \<and> idb_put_errors s = c \<Longrightarrow>
   (fst (restore_field d n k s) = Threw) =
     (property d n = Threw \<or> (\<exists>v. property d n = Returned (Some v) \<and> truthy v \<and> a \<and> b \<and> c))"
  by (auto simp: restore_field_def Storage_save_unfold split: outcome.splits option.splits)

lemma restore_fields_effect:
  "\<exists>M1 M2. \<forall>s. setItem_throws s = a \<and> idb_opens s = b \<and> idb_put_errors s = c \<longrightarrow>
      live (snd (restore_fields d fks s)) = (localStorage s ++ M1, idb_store s ++ M2)"
proof (induction fks)
  case Nil
  have "\<forall>s. live (snd (restore_fields d [] s)) = (localStorage s ++ Map.empty, idb_store s ++ Map.empty)"
    by (simp add: live_def)
  then show ?case by blast
next
  case (Cons x fks)
  obtain n k where x: "x = (n, k)" by (cases x)
  from Cons.IH obtain R1 R2 where R:
    "\<And>s. setItem_throws s = a \<and> idb_opens s = b \<and> idb_put_errors s = c \<Longrightarrow>
       live (snd (restore_fields d fks s)) = (localStorage s ++ R1, idb_store s ++ R2)" by blast
  from restore_field_effect[of a b c d n k] obtain F1 F2 where F:
    "\<And>s. setItem_throws s = a \<and> idb_opens s = b \<and> idb_put_errors s = c \<Longrightarrow>
       live (snd (restore_field d n k s)) = (localStorage s ++ F1, idb_store s ++ F2)" by blast
  define T where "T = (property d n = Threw \<or> (\<exists>v. property d n = Returned (Some v) \<and> truthy v \<and> a \<and> b \<and> c))"
  show ?case
  proof (cases T)
    case True
    have "live (snd (restore_fields d (x # fks) s)) = (localStorage s ++ F1, idb_store s ++ F2)"
      if fl: "setItem_throws s = a \<and> idb_opens s = b \<and> idb_put_errors s = c" for s
    proof -
      have "fst (restore_field d n k s) = Threw"
        using restore_field_fst[OF fl, of d n k] True by (simp add: T_def)
      then have "restore_fields d (x # fks) s = (Threw, snd (restore_field d n k s))"
        by (cases "restore_field d n k s") (simp add: x)
      then show ?thesis using F[OF fl] by simp
    qed
    then show ?thesis by blast
  next
    case False
    have "live (snd (restore_fields d (x # fks) s)) = (localStorage s ++ (F1 ++ R1), idb_store s ++ (F2 ++ R2))"
      if fl: "setItem_throws s = a \<and> idb_opens s = b \<and> idb_put_errors s = c" for s
    proof -
      obtain r s' where rs: "restore_field d n k s = (r, s')" by (cases "restore_field d n k s")
      have "r \<noteq> Threw"
        using restore_field_fst[OF fl, of d n k] False rs by (simp add: T_def)
      then obtain u where u: "r = Returned u" by (cases r) simp_all
      have fl': "setItem_throws s' = a \<and> idb_opens s' = b \<and> idb_put_errors s' = c"
        using restore_field_flags[of d n k s] rs fl by simp
      have s': "live s' = (localStorage s ++ F1, idb_store s ++ F2)"
        using F[OF fl] rs by simp
      have "restore_fields d (x # fks) s = restore_fields d fks s'"
        by (simp add: x rs u)
      then show ?thesis using R[OF fl'] s' by (simp add: live_def)
    qed
    then show ?thesis by blast
  qed
qed

lemma map_add_twice: "(m ++ M) ++ M = m ++ (M :: 'a \<rightharpoonup> 'b)"
  by (rule ext) (simp add: map_add_def split: option.splits)

lemma restore_fields_idem:
  "live (snd (restore_fields d fks (snd (restore_fields d fks s)))) = live (snd (restore_fields d fks s))"
proof -
  obtain M1 M2 where M:
    "\<And>t. setItem_throws t = setItem_throws s \<and> idb_opens t = idb_opens s \<and> idb_put_errors t = idb_put_errors s \<Longrightarrow>
       live (snd (restore_fields d fks t)) = (localStorage t ++ M1, idb_store t ++ M2)"
    using restore_fields_effect[of "setItem_throws s" "idb_opens s" "idb_put_errors s" d fks] by blast
  have one: "live (snd (restore_fields d fks s)) = (localStorage s ++ M1, idb_store s ++ M2)"
    by (rule M) simp
  have two: "live (snd (restore_fields d fks (snd (restore_fields d fks s)))) =
      (localStorage (snd (restore_fields d fks s)) ++ M1, idb_store (snd (restore_fields d fks s)) ++ M2)"
    by (rule M) (simp add: restore_fields_flags)
  from one have "localStorage (snd (restore_fields d fks s)) = localStorage s ++ M1"
    "idb_store (snd (restore_fields d fks s)) = idb_store s ++ M2"
    by (simp_all add: live_def)
  with two one show ?thesis by (simp add: map_add_twice)
qed

lemma restore_field_loads:
  assumes "\<exists>v. property d n = Returned (Some v) \<and> Storage_load_default k s = Returned v"
  shows "Storage_load_default k' (snd (restore_field d n k s)) = Storage_load_default k' s"
proof -
  from assms obtain v where v: "property d n = Returned (Some v)" "Storage_load_default k s = Returned v"
    by blast
  show ?thesis
    by (cases "truthy v") (simp_all add: restore_field_def v load_after_save)
qed

lemma restore_fields_loads:
  "(\<And>n k. (n, k) \<in> set fks \<Longrightarrow> \<exists>v. property d n = Returned (Some v) \<and> Storage_load_default k s = Returned v)
   \<Longrightarrow> Storage_load_default k' (snd (restore_fields d fks s)) = Storage_load_default k' s"
proof (induction fks arbitrary: s)
  case Nil
  show ?case by simp
next
  case (Cons x fks)
  obtain n k where x: "x = (n, k)" by (cases x)
  obtain r s' where rs: "restore_field d n k s = (r, s')" by (cases "restore_field d n k s")
  have keep: "Storage_load_default j s' = Storage_load_default j s" for j
    using restore_field_loads[of d n k s j] Cons.prems[of n k] rs by (simp add: x)
  show ?case
  proof (cases r)
    case Threw
    then show ?thesis using rs keep by (simp add: x)
  next
    case (Returned u)
    have "Storage_load_default k' (snd (restore_fields d fks s')) = Storage_load_default k' s'"
    proof (rule Cons.IH)
      fix n' k' assume "(n', k') \<in> set fks"
      then show "\<exists>v. property d n' = Returned (Some v) \<and> Storage_load_default k' s' = Returned v"
        using Cons.prems[of n' k'] keep by simp
    qed
    then show ?thesis using rs Returned keep by (simp add: x)
  qed
qed

lemma restore_fields_cong:
  "(\<And>n k. (n, k) \<in> set fks \<Longrightarrow> property d n = property d' n)
   \<Longrightarrow> restore_fields d fks s = restore_fields d' fks s"
proof (induction fks arbitrary: s)
  case Nil
  show ?case by simp
next
  case (Cons x fks)
  obtain n k where x: "x = (n, k)" by (cases x)
  have "restore_field d n k s = restore_field d' n k s"
    using Cons.prems[of n k] by (simp add: restore_field_def x)
  moreover have "restore_fields d fks t = restore_fields d' fks t" for t
    by (rule Cons.IH) (use Cons.prems in auto)
  ultimately show ?case by (simp add: x split: prod.splits outcome.splits)
qed

text \<open>
  Building the payload either throws, whatever the export time, or every collection
  loaded and the payload holds what the loads returned.
\<close>

lemma payload_shape:
  "(\<forall>t. backupToDrive_payload t s = Threw) \<or>
   (\<exists>b f so c se sh bu.
     Storage_load_default KEYS_BOUGHT s = Returned b \<and>
     Storage_load_default KEYS_FORSALE s = Returned f \<and>
     Storage_load_default KEYS_SOLD s = Returned so \<and>
     Storage_load_default KEYS_CASH s = Returned c \<and>
     Storage_load_default KEYS_SELLERS s = Returned se \<and>
     Storage_load_default KEYS_SHIP_OUT_MAP s = Returned sh \<and>
     Storage_load_default KEYS_BUYERS s = Returned bu \<and>
     (\<forall>t. backupToDrive_payload t s = Returned (JObj
         [(''bought'', b), (''forsale'', f), (''sold'', so), (''cash'', c),
          (''sellers'', se), (''shipping'', sh), (''buyers'', bu),
          (''exportedAt'', JStr t), (''version'', JNum 3)])))"
proof -
  show ?thesis
  proof (cases "Storage_load_default KEYS_BOUGHT s")
    case Threw
    then show ?thesis
      by (simp add: backupToDrive_payload_def )
  next
    case lb: (Returned b)
    show ?thesis
    proof (cases "Storage_load_default KEYS_FORSALE s")
      case Threw
      then show ?thesis
        by (simp add: backupToDrive_payload_def lb)
    next
      case lf: (Returned f)
      show ?thesis
      proof (cases "Storage_load_default KEYS_SOLD s")
        case Threw
        then show ?thesis
          by (simp add: backupToDrive_payload_def lb lf)
      next
        case lso: (Returned so)
        show ?thesis
        proof (cases "Storage_load_default KEYS_CASH s")
          case Threw
          then show ?thesis
            by (simp add: backupToDrive_payload_def lb lf lso)
        next
          case lc: (Returned c)
          show ?thesis
          proof (cases "Storage_load_default KEYS_SELLERS s")
            case Threw
            then show ?thesis
              by (simp add: backupToDrive_payload_def lb lf lso lc)
          next
            case lse: (Returned se)
            show ?thesis
            proof (cases "Storage_load_default KEYS_SHIP_OUT_MAP s")
              case Threw
              then show ?thesis
                by (simp add: backupToDrive_payload_def lb lf lso lc lse)
            next
              case lsh: (Returned sh)
              show ?thesis
              proof (cases "Storage_load_default KEYS_BUYERS s")
                case Threw
                then show ?thesis
                  by (simp add: backupToDrive_payload_def lb lf lso lc lse lsh)
              next
                case lbu: (Returned bu)
                show ?thesis
                  by (simp add: backupToDrive_payload_def lb lf lso lc lse lsh lbu)
              qed
            qed
          qed
        qed
      qed
    qed
  qed
qed

text \<open>
  C8. From every browser state, a backup followed by the restore of its snapshot, done a
  second time, leaves both stores as the first round left them (\<open>t1\<close> and \<open>t2\<close> are the
  export times of the two snapshots); restoring one and the same downloaded snapshot
  twice gives what restoring it once gives; and every collection loads after the round as
  it loaded before. The live state compared is the content of \<^verbatim>\<open>localStorage\<close> and of
  the IndexedDB store.
\<close>

theorem backup_then_restore_idempotent:
  "live (snd (backup_then_restore t2 (snd (backup_then_restore t1 s)))) =
     live (snd (backup_then_restore t1 s)) \<and>
   live (snd (restoreFromDrive data True (snd (restoreFromDrive data True s)))) =
     live (snd (restoreFromDrive data True s)) \<and>
   Storage_load_default key (snd (backup_then_restore t1 s)) = Storage_load_default key s"
proof -
  have fixed: "live (snd (restoreFromDrive data True (snd (restoreFromDrive data True s)))) =
     live (snd (restoreFromDrive data True s))"
    by (simp add: restoreFromDrive_def restore_fields_idem)
  from payload_shape [of s] show ?thesis
  proof
    assume thrown: "\<forall>t. backupToDrive_payload t s = Threw"
    then have "snd (backup_then_restore t s) = s" for t
      by (simp add: backup_then_restore_def)
    with fixed show ?thesis by simp
  next
    assume "\<exists>b f so c se sh bu.
     Storage_load_default KEYS_BOUGHT s = Returned b \<and>
     Storage_load_default KEYS_FORSALE s = Returned f \<and>
     Storage_load_default KEYS_SOLD s = Returned so \<and>
     Storage_load_default KEYS_CASH s = Returned c \<and>
     Storage_load_default KEYS_SELLERS s = Returned se \<and>
     Storage_load_default KEYS_SHIP_OUT_MAP s = Returned sh \<and>
     Storage_load_default KEYS_BUYERS s = Returned bu \<and>
     (\<forall>t. backupToDrive_payload t s = Returned (JObj
         [(''bought'', b), (''forsale'', f), (''sold'', so), (''cash'', c),
          (''sellers'', se), (''shipping'', sh), (''buyers'', bu),
          (''exportedAt'', JStr t), (''version'', JNum 3)]))"
    then obtain b f so c se sh bu where L:
       "Storage_load_default KEYS_BOUGHT s = Returned b"
       "Storage_load_default KEYS_FORSALE s = Returned f"
       "Storage_load_default KEYS_SOLD s = Returned so"
       "Storage_load_default KEYS_CASH s = Returned c"
       "Storage_load_default KEYS_SELLERS s = Returned se"
       "Storage_load_default KEYS_SHIP_OUT_MAP s = Returned sh"
       "Storage_load_default KEYS_BUYERS s = Returned bu"
      and P: "backupToDrive_payload t1 s = Returned (JObj
           [(''bought'', b), (''forsale'', f), (''sold'', so), (''cash'', c),
            (''sellers'', se), (''shipping'', sh), (''buyers'', bu),
            (''exportedAt'', JStr t1), (''version'', JNum 3)])"
      by blast
    define d1 where "d1 = JObj
           [(''bought'', b), (''forsale'', f), (''sold'', so), (''cash'', c),
            (''sellers'', se), (''shipping'', sh), (''buyers'', bu),
            (''exportedAt'', JStr t1), (''version'', JNum 3)]"
    define d2 where "d2 = JObj
           [(''bought'', b), (''forsale'', f), (''sold'', so), (''cash'', c),
            (''sellers'', se), (''shipping'', sh), (''buyers'', bu),
            (''exportedAt'', JStr t2), (''version'', JNum 3)]"
    define s1 where "s1 = snd (restore_fields d1 snapshot_fields s)"
    have first: "snd (backup_then_restore t1 s) = s1"
      by (simp add: backup_then_restore_def P restoreFromDrive_def s1_def d1_def)
    have agree: "\<exists>v. property d1 n = Returned (Some v) \<and> Storage_load_default k s = Returned v"
      if "(n, k) \<in> set snapshot_fields" for n k
      using that L by (auto simp: snapshot_fields_def d1_def)
    have same: "Storage_load_default k s1 = Storage_load_default k s" for k
      unfolding s1_def by (rule restore_fields_loads) (rule agree)
    have P2: "backupToDrive_payload t2 s1 = Returned d2"
      by (simp add: backupToDrive_payload_def same L d2_def)
    have "restore_fields d2 snapshot_fields s1 = restore_fields d1 snapshot_fields s1"
      by (rule restore_fields_cong) (auto simp: snapshot_fields_def d1_def d2_def)
    then have "snd (backup_then_restore t2 s1) = snd (restore_fields d1 snapshot_fields s1)"
      by (simp add: backup_then_restore_def P2 restoreFromDrive_def)
    then have "live (snd (backup_then_restore t2 (snd (backup_then_restore t1 s)))) =
       live (snd (backup_then_restore t1 s))"
      unfolding first by (simp add: s1_def restore_fields_idem)
    then show ?thesis
      using same [of key] fixed by (simp add: first)
  qed
qed

section \<open>Properties of the ledger handlers\<close>



lemma set_splice1: "set (splice1 i xs) \<subseteq> set xs"
  by (auto simp: splice1_def dest: in_set_takeD in_set_dropD)

lemma examples_eval:
  "bought intake_example =
     [\<lparr>b_id = ''a1'', b_seller = ''Ana'', b_name = ''card'', b_buy = 100, b_ship = 10,
       b_sell = Some 100, b_image = ''img'', b_createdAt = 1\<rparr>]"
  "forsale intake_example = []" "sold intake_example = []" "cash intake_example = []"
  "bought listed_example = []"
  "forsale listed_example =
     [\<lparr>l_id = ''f1'', l_name = ''card'', l_price = 100, l_buy = 110, l_ship_in = Some 10,
       l_seller = ''Ana'', l_image = ''img'', l_createdAt = Some 2, l_buyer = None,
       l_soldAt = None, l_status = None\<rparr>]"
  "sold listed_example = []" "cash listed_example = []"
  "bought sold_example = []" "forsale sold_example = []"
  "sold sold_example =
     [\<lparr>l_id = ''f1'', l_name = ''card'', l_price = 100, l_buy = 110, l_ship_in = Some 10,
       l_seller = ''Ana'', l_image = ''img'', l_createdAt = Some 2, l_buyer = Some ''Xavier'',
       l_soldAt = Some 3, l_status = Some ''Pending''\<rparr>]"
  "cash sold_example = []"
  by (simp_all add: sold_example_def listed_example_def intake_example_def addBought_def
      listForSale_def markSold_def empty_ledger_def splice1_def)

subsection \<open>Listing price\<close>




subsection \<open>Stage transitions\<close>





subsection \<open>Renaming and deleting sellers and buyers\<close>

lemma set_new_Set_aux: "set (foldl Set_add acc xs) = set acc \<union> set xs"
  by (induction xs arbitrary: acc) (auto simp: Set_add_def)

lemma set_new_Set: "set (new_Set xs) = set xs"
  by (simp add: new_Set_def set_new_Set_aux)

lemma set_Set_add: "set (Set_add xs x) = insert x (set xs)"
  by (auto simp: Set_add_def)

lemma set_Set_delete: "set (Set_delete xs x) = set xs - {x}"
  by (auto simp: Set_delete_def)

lemma rename_filter_old:
  "a \<noteq> b \<Longrightarrow> filter (\<lambda>i. sel i = a) (map (\<lambda>i. if sel i = a then upd i else i) xs) = []"
  if "\<And>i. sel (upd i) = b" for sel :: "'a \<Rightarrow> string"
  using that by (induction xs) auto

lemma rename_count_new:
  "a \<noteq> b \<Longrightarrow>
   length (filter (\<lambda>i. sel i = b) (map (\<lambda>i. if sel i = a then upd i else i) xs)) =
     length (filter (\<lambda>i. sel i = a) xs) + length (filter (\<lambda>i. sel i = b) xs)"
  if "\<And>i. sel (upd i) = b" for sel :: "'a \<Rightarrow> string"
  using that by (induction xs) auto

text \<open>
  C1 as stated fails for the sold collection: a sold record carries the seller of the
  listing it was, and the rename handler neither loads nor saves the sold collection. After
  Ana's card is sold, renaming Ana to Bea leaves the sold record with seller Ana.
\<close>

theorem renameSeller_sold_counterexample:
  "map l_seller (sold sold_example) = [''Ana''] \<and>
   fst (renameSeller ''Ana'' (Some ''Bea'') sold_example) = Some ''Seller renamed.'' \<and>
   map l_seller (sold (snd (renameSeller ''Ana'' (Some ''Bea'') sold_example))) = [''Ana'']"
  by (simp add: examples_eval renameSeller_def Let_def)

text \<open>
  C1 (amended). For every seller name \<open>A\<close> and non-empty new name \<open>B\<close> other than \<open>A\<close>,
  renaming \<open>A\<close> to \<open>B\<close> leaves no record with seller \<open>A\<close> in the inventory and in the
  for-sale collection; in each of the two, the records with seller \<open>B\<close> afterwards are as
  many as those with seller \<open>A\<close> or \<open>B\<close> before, and the collection keeps its length; the
  sold collection is left as it is; the last-used seller becomes \<open>B\<close> if it was \<open>A\<close>; and
  the seller list holds \<open>B\<close> and no longer \<open>A\<close>.
\<close>

theorem renameSeller_cascade:
  assumes "B \<noteq> []" and "A \<noteq> B"
  shows "filter (\<lambda>i. b_seller i = A) (bought (snd (renameSeller A (Some B) s))) = [] \<and>
     filter (\<lambda>i. l_seller i = A) (forsale (snd (renameSeller A (Some B) s))) = [] \<and>
     length (filter (\<lambda>i. b_seller i = B) (bought (snd (renameSeller A (Some B) s)))) =
       length (filter (\<lambda>i. b_seller i = A) (bought s)) +
       length (filter (\<lambda>i. b_seller i = B) (bought s)) \<and>
     length (filter (\<lambda>i. l_seller i = B) (forsale (snd (renameSeller A (Some B) s)))) =
       length (filter (\<lambda>i. l_seller i = A) (forsale s)) +
       length (filter (\<lambda>i. l_seller i = B) (forsale s)) \<and>
     length (bought (snd (renameSeller A (Some B) s))) = length (bought s) \<and>
     length (forsale (snd (renameSeller A (Some B) s))) = length (forsale s) \<and>
     sold (snd (renameSeller A (Some B) s)) = sold s \<and>
     seller_last (snd (renameSeller A (Some B) s)) =
       (if seller_last s = Some A then Some B else seller_last s) \<and>
     A \<notin> set (sellers (snd (renameSeller A (Some B) s))) \<and>
     B \<in> set (sellers (snd (renameSeller A (Some B) s)))"
proof -
  have b1: "filter (\<lambda>i. b_seller i = A)
      (map (\<lambda>i. if b_seller i = A then i\<lparr>b_seller := B\<rparr> else i) (bought s)) = []"
    by (rule rename_filter_old[where b=B]) (simp_all add: assms)
  have b2: "length (filter (\<lambda>i. b_seller i = B)
      (map (\<lambda>i. if b_seller i = A then i\<lparr>b_seller := B\<rparr> else i) (bought s))) =
       length (filter (\<lambda>i. b_seller i = A) (bought s)) +
       length (filter (\<lambda>i. b_seller i = B) (bought s))"
    by (rule rename_count_new[where b=B]) (simp_all add: assms)
  have f1: "filter (\<lambda>i. l_seller i = A)
      (map (\<lambda>i. if l_seller i = A then i\<lparr>l_seller := B\<rparr> else i) (forsale s)) = []"
    by (rule rename_filter_old[where b=B]) (simp_all add: assms)
  have f2: "length (filter (\<lambda>i. l_seller i = B)
      (map (\<lambda>i. if l_seller i = A then i\<lparr>l_seller := B\<rparr> else i) (forsale s))) =
       length (filter (\<lambda>i. l_seller i = A) (forsale s)) +
       length (filter (\<lambda>i. l_seller i = B) (forsale s))"
    by (rule rename_count_new[where b=B]) (simp_all add: assms)
  have r: "snd (renameSeller A (Some B) s) =
      s\<lparr>sellers := Set_add (Set_delete (new_Set (sellers s)) A) B,
        bought := map (\<lambda>i. if b_seller i = A then i\<lparr>b_seller := B\<rparr> else i) (bought s),
        forsale := map (\<lambda>i. if l_seller i = A then i\<lparr>l_seller := B\<rparr> else i) (forsale s),
        seller_last := (if seller_last s = Some A then Some B else seller_last s)\<rparr>"
    using assms by (auto simp add: renameSeller_def Let_def)
  show ?thesis
    unfolding r using b1 b2 f1 f2 assms
    by (simp add: set_Set_add set_Set_delete set_new_Set)
qed

lemma two_stage_eval:
  "bought two_stage_example =
     [\<lparr>b_id = ''a2'', b_seller = ''Ana'', b_name = ''card2'', b_buy = 40, b_ship = 0,
       b_sell = Some 60, b_image = ''img2'', b_createdAt = 3\<rparr>]"
  "forsale two_stage_example =
     [\<lparr>l_id = ''f1'', l_name = ''card'', l_price = 100, l_buy = 110, l_ship_in = Some 10,
       l_seller = ''Ana'', l_image = ''img'', l_createdAt = Some 2, l_buyer = None,
       l_soldAt = None, l_status = None\<rparr>]"
  "sold two_stage_example = []"
  "sellers two_stage_example = [''Ana'']"
  "seller_last two_stage_example = Some ''Ana''"
  by (simp_all add: two_stage_example_def examples_eval addBought_def)

theorem renameSeller_cascade_witness:
  "''Bea'' \<noteq> [] \<and> ''Ana'' \<noteq> ''Bea'' \<and>
   map b_seller (bought two_stage_example) = [''Ana''] \<and>
   map l_seller (forsale two_stage_example) = [''Ana''] \<and>
   map b_seller (bought (snd (renameSeller ''Ana'' (Some ''Bea'') two_stage_example))) = [''Bea''] \<and>
   map l_seller (forsale (snd (renameSeller ''Ana'' (Some ''Bea'') two_stage_example))) = [''Bea''] \<and>
   seller_last (snd (renameSeller ''Ana'' (Some ''Bea'') two_stage_example)) = Some ''Bea'' \<and>
   ''Ana'' \<notin> set (sellers (snd (renameSeller ''Ana'' (Some ''Bea'') two_stage_example)))"
proof -
  have h: "''Bea'' \<noteq> []" "''Ana'' \<noteq> ''Bea''" by simp_all
  show ?thesis
    using renameSeller_cascade [OF h, of two_stage_example] two_stage_eval
    by (simp add: renameSeller_def Let_def)
qed

text \<open>
  C6 as stated fails for buyers: deleting a buyer takes the name off the buyer list and
  leaves every sold record and listing with the name (the dialogue says so), instead of
  clearing the field.
\<close>

theorem deleteBuyer_keeps_name_counterexample:
  "buyers buyer_example = [''Xavier''] \<and>
   map l_buyer (sold buyer_example) = [Some ''Xavier''] \<and>
   buyers (snd (deleteBuyer ''Xavier'' True buyer_example)) = [] \<and>
   map l_buyer (sold (snd (deleteBuyer ''Xavier'' True buyer_example))) = [Some ''Xavier'']"
  by (simp add: buyer_example_def examples_eval deleteBuyer_def new_Set_def Set_add_def
      Set_delete_def)

text \<open>
  C6 (amended). Deleting a seller (once confirmed) takes the name off the seller list and
  sets the seller of every inventory item and listing that had it to the reassignment
  target if one is given, else to the empty string; every other item and listing, and the
  sold collection, stay as they are. Deleting a buyer (once confirmed) takes the name off
  the buyer list and changes no record: sold records and listings keep the name.
\<close>

theorem deleteParty:
  "name \<notin> set (sellers (snd (deleteSeller name True reassignTo s))) \<and>
   length (bought (snd (deleteSeller name True reassignTo s))) = length (bought s) \<and>
   length (forsale (snd (deleteSeller name True reassignTo s))) = length (forsale s) \<and>
   (\<forall>i < length (bought s).
      bought (snd (deleteSeller name True reassignTo s)) ! i =
        (if b_seller (bought s ! i) = name
         then (bought s ! i)\<lparr>b_seller := or_default reassignTo []\<rparr> else bought s ! i)) \<and>
   (\<forall>i < length (forsale s).
      forsale (snd (deleteSeller name True reassignTo s)) ! i =
        (if l_seller (forsale s ! i) = name
         then (forsale s ! i)\<lparr>l_seller := or_default reassignTo []\<rparr> else forsale s ! i)) \<and>
   sold (snd (deleteSeller name True reassignTo s)) = sold s \<and>
   name \<notin> set (buyers (snd (deleteBuyer name True s))) \<and>
   sold (snd (deleteBuyer name True s)) = sold s \<and>
   forsale (snd (deleteBuyer name True s)) = forsale s \<and>
   bought (snd (deleteBuyer name True s)) = bought s"
  by (simp add: deleteSeller_def deleteBuyer_def Let_def set_Set_delete)

theorem deleteParty_witness:
  "(0::nat) < length (bought two_stage_example) \<and> 0 < length (forsale two_stage_example) \<and>
   b_seller (bought two_stage_example ! 0) = ''Ana'' \<and>
   l_seller (forsale two_stage_example ! 0) = ''Ana'' \<and>
   ''Ana'' \<notin> set (sellers (snd (deleteSeller ''Ana'' True (Some ''Bea'') two_stage_example))) \<and>
   b_seller (bought (snd (deleteSeller ''Ana'' True (Some ''Bea'') two_stage_example)) ! 0) = ''Bea'' \<and>
   l_seller (forsale (snd (deleteSeller ''Ana'' True (Some ''Bea'') two_stage_example)) ! 0) = ''Bea'' \<and>
   b_seller (bought (snd (deleteSeller ''Ana'' True None two_stage_example)) ! 0) = [] \<and>
   ''Xavier'' \<notin> set (buyers (snd (deleteBuyer ''Xavier'' True buyer_example))) \<and>
   sold (snd (deleteBuyer ''Xavier'' True buyer_example)) = sold buyer_example"
  using deleteParty [where name = "''Ana''" and reassignTo = "Some ''Bea''" and s = two_stage_example]
    deleteParty [where name = "''Ana''" and reassignTo = None and s = two_stage_example]
    deleteParty [where name = "''Xavier''" and s = buyer_example]
  by (simp add: two_stage_eval deleteSeller_def Let_def)

section \<open>Properties of the Cash page\<close>

subsection \<open>Additions that do not round\<close>

text \<open>
  A whole number of absolute value at most \<open>2 ^ 53\<close> is a double, so that \<open>to_double\<close>
  returns it as it is, and the sum of two whole numbers is exact as long as it stays within
  that bound.
\<close>

lemma round_half_even_of_int: "round_half_even (of_int n) = n"
  by (simp add: round_half_even_def)

lemma bitlen_one: "bitlen 1 = 1"
  by (simp add: bitlen_alt_def)

lemma ilog2_of_int:
  assumes "0 < a"
  shows "ilog2 (of_int a) = bitlen a - 1"
proof -
  have b: "(2::int) ^ nat (bitlen a - 1) \<le> a" using bitlen_bounds[OF assms] by simp
  have ge: "0 \<le> bitlen a - 1"
    using assms bitlen_eq_zero_iff[of a] bitlen_nonneg[of a] by linarith
  have "(of_int ((2::int) ^ nat (bitlen a - 1)) :: rat) \<le> of_int a"
    using b by (simp only: of_int_le_iff)
  then have "pow2 (bitlen a - 1) \<le> of_int a"
    using ge by (simp add: pow2_def)
  then show ?thesis
    by (simp add: ilog2_def Let_def bitlen_one)
qed

lemma bitlen_le_54:
  assumes "0 < a" "a \<le> 2 ^ 53"
  shows "bitlen a \<le> 54"
proof (rule ccontr)
  assume "\<not> bitlen a \<le> 54"
  then have "54 \<le> nat (bitlen a - 1)" by simp
  then have "(2::int) ^ 54 \<le> 2 ^ nat (bitlen a - 1)"
    by (rule power_increasing) simp
  also have "\<dots> \<le> a" using bitlen_bounds[OF assms(1)] by simp
  finally show False using assms(2) by simp
qed

lemma to_double_pos_int:
  assumes "0 < a" "a \<le> 2 ^ 53"
  shows "to_double (of_int a) = Finite (of_int a)" and "to_double (- of_int a) = Finite (- of_int a)"
proof -
  define d where "d = bitlen a - 1"
  have d0: "0 \<le> d"
    using assms(1) bitlen_eq_zero_iff[of a] bitlen_nonneg[of a] unfolding d_def by linarith
  have d53: "d \<le> 53" using bitlen_le_54[OF assms] by (simp add: d_def)
  have il: "ilog2 (of_int a) = d" by (simp add: ilog2_of_int assms d_def)
  have lo: "(2::int) ^ nat d \<le> a" using bitlen_bounds[OF assms(1)] by (simp add: d_def)
  have q: "max (d - 52) (- 1074) = d - 52" using d0 by simp
  have small: "\<not> pow2 1024 \<le> (of_int a :: rat)"
  proof -
    have "(of_int a :: rat) \<le> of_int (2 ^ 53)" using assms(2) by (simp only: of_int_le_iff)
    also have "\<dots> < 2 ^ 1024" by simp
    finally show ?thesis by (simp add: pow2_def)
  qed
  have r: "of_int (round_half_even ((of_int a :: rat) / pow2 (d - 52))) * pow2 (d - 52) = of_int a"
  proof (cases "d \<le> 52")
    case True
    then have p: "pow2 (d - 52) = 1 / 2 ^ nat (52 - d)"
      by (cases "d = 52") (simp_all add: pow2_def)
    have e: "(of_int a :: rat) / pow2 (d - 52) = of_int (a * 2 ^ nat (52 - d))"
      by (simp add: p)
    have "of_int (round_half_even ((of_int a :: rat) / pow2 (d - 52))) * pow2 (d - 52) =
        (of_int (a * 2 ^ nat (52 - d)) :: rat) * pow2 (d - 52)"
      by (simp only: e round_half_even_of_int)
    also have "\<dots> = of_int a"
      by (simp add: p)
    finally show ?thesis .
  next
    case False
    with d53 have d: "d = 53" by simp
    with lo assms(2) have a: "a = 2 ^ 53" by simp
    have e: "(of_int a :: rat) / pow2 (d - 52) = of_int (2 ^ 52)"
      by (simp add: d a pow2_def)
    have "of_int (round_half_even ((of_int a :: rat) / pow2 (d - 52))) * pow2 (d - 52) =
        (of_int (2 ^ 52) :: rat) * pow2 (d - 52)"
      by (simp only: e round_half_even_of_int)
    also have "\<dots> = of_int a"
      by (simp add: d a pow2_def)
    finally show ?thesis .
  qed
  have ne: "(of_int a :: rat) \<noteq> 0" "0 < (of_int a :: rat)" using assms(1) by simp_all
  show "to_double (of_int a) = Finite (of_int a)"
    using ne small r by (simp add: to_double_def Let_def il q)
  show "to_double (- of_int a) = Finite (- of_int a)"
    using ne small r by (simp add: to_double_def Let_def il q)
qed

lemma to_double_int:
  assumes "\<bar>z\<bar> \<le> 2 ^ 53"
  shows "to_double (of_int z) = Finite (of_int z)"
proof (cases "z = 0")
  case True
  then show ?thesis by (simp add: to_double_def)
next
  case False
  show ?thesis
  proof (cases "0 < z")
    case True
    with assms to_double_pos_int(1)[of z] show ?thesis by simp
  next
    case neg: False
    with False have "0 < - z" by simp
    moreover from assms have "- z \<le> 2 ^ 53" by simp
    ultimately have "to_double (- of_int (- z)) = Finite (- of_int (- z))"
      by (rule to_double_pos_int(2))
    then show ?thesis by simp
  qed
qed

lemma js_add_exact:
  assumes "x \<in> \<int>" "y \<in> \<int>" "\<bar>x + y\<bar> \<le> 2 ^ 53"
  shows "js_add (Finite x) (Finite y) = Finite (x + y)"
proof -
  from assms(1,2) have "x + y \<in> \<int>" by simp
  then obtain z where z: "x + y = of_int z" by (rule Ints_cases)
  have "(of_int \<bar>z\<bar> :: rat) \<le> of_int (2 ^ 53)"
    using assms(3) by (simp add: z)
  then have "\<bar>z\<bar> \<le> 2 ^ 53" by (simp only: of_int_le_iff)
  then show ?thesis
    by (simp add: z to_double_int)
qed

lemma fold_exact:
  assumes h: "\<And>x. h (Finite x) = Finite x"
    and "\<forall>e \<in> set xs. f e \<in> \<int>" and "t \<in> \<int>"
    and "\<bar>t\<bar> + sum_list (map (\<lambda>e. \<bar>f e\<bar>) xs) \<le> 2 ^ 53"
  shows "foldl (\<lambda>acc e. h (js_add acc (Finite (f e)))) (Finite t) xs =
         Finite (t + sum_list (map f xs))"
  using assms(2-)
proof (induction xs arbitrary: t)
  case Nil
  show ?case by simp
next
  case (Cons a xs)
  have abs_nonneg: "0 \<le> sum_list (map (\<lambda>e. \<bar>f e\<bar>) xs)"
    by (rule sum_list_nonneg) auto
  have fa: "f a \<in> \<int>" using Cons.prems(1) by simp
  have b1: "\<bar>t + f a\<bar> \<le> 2 ^ 53"
    using Cons.prems(3) abs_nonneg by (simp add: abs_le_iff) linarith
  have step: "h (to_double (t + f a)) = Finite (t + f a)"
    using js_add_exact[OF Cons.prems(2) fa b1] by (simp add: h)
  have "foldl (\<lambda>acc e. h (js_add acc (Finite (f e)))) (Finite (t + f a)) xs =
      Finite (t + f a + sum_list (map f xs))"
  proof (rule Cons.IH)
    show "\<forall>e \<in> set xs. f e \<in> \<int>" using Cons.prems(1) by simp
    show "t + f a \<in> \<int>" using Cons.prems(2) fa by simp
    show "\<bar>t + f a\<bar> + sum_list (map (\<lambda>e. \<bar>f e\<bar>) xs) \<le> 2 ^ 53"
      using Cons.prems(3) by simp
  qed
  then show ?case by (simp add: step add.assoc)
qed

lemma sum_list_filter3:
  assumes "g \<noteq> sb" "g \<noteq> c" "sb \<noteq> c"
    and "\<forall>e \<in> set items. c_source e \<in> {g, sb, c}"
  shows "sum_list (map f (filter (\<lambda>i. c_source i = g) items)) +
         sum_list (map f (filter (\<lambda>i. c_source i = sb) items)) +
         sum_list (map f (filter (\<lambda>i. c_source i = c) items)) =
         (sum_list (map f items) :: rat)"
  using assms(4)
proof (induction items)
  case Nil
  show ?case by simp
next
  case (Cons a items)
  then have IH: "sum_list (map f (filter (\<lambda>i. c_source i = g) items)) +
         sum_list (map f (filter (\<lambda>i. c_source i = sb) items)) +
         sum_list (map f (filter (\<lambda>i. c_source i = c) items)) =
         sum_list (map f items)" by simp
  from Cons.prems have "c_source a = g \<or> c_source a = sb \<or> c_source a = c" by simp
  then show ?case using assms(1-3) IH by auto
qed

lemma abs_sum_list_le: "\<bar>sum_list (map f xs)\<bar> \<le> sum_list (map (\<lambda>e. \<bar>f e :: rat\<bar>) xs)"
proof (induction xs)
  case Nil
  show ?case by simp
next
  case (Cons a xs)
  have "\<bar>f a + sum_list (map f xs)\<bar> \<le> \<bar>f a\<bar> + \<bar>sum_list (map f xs)\<bar>"
    by (rule abs_triangle_ineq)
  then show ?case using Cons by simp
qed

lemma sum_list_Ints: "\<forall>e \<in> set xs. f e \<in> \<int> \<Longrightarrow> (sum_list (map f xs) :: rat) \<in> \<int>"
  by (induction xs) simp_all

subsection \<open>Cash entries\<close>

text \<open>
  For an amount that is a finite number, each of the three handlers that create a cash entry
  either leaves the cash collection as it is or puts one entry first, whose amount is the
  amount entered, above zero, for the two adding handlers and its negation for the
  deduction; \<^verbatim>\<open>NaN\<close>, \<^verbatim>\<open>-Infinity\<close> and a finite amount that is not above zero leave the
  collection as it is.
\<close>

lemma cash_entry_finite_amount:
  "(cash (snd (addCash source (Finite a) memo uid now s)) = cash s \<or>
      (0 < a \<and> (\<exists>e. c_amount e = Some a \<and>
         cash (snd (addCash source (Finite a) memo uid now s)) = e # cash s))) \<and>
   (cash (snd (addToCash buyer source (Finite a) memo uid now s)) = cash s \<or>
      (0 < a \<and> (\<exists>e. c_amount e = Some a \<and>
         cash (snd (addToCash buyer source (Finite a) memo uid now s)) = e # cash s))) \<and>
   (cash (snd (deductCash source (Finite a) memo uid now s)) = cash s \<or>
      (0 < a \<and> (\<exists>e. c_amount e = Some (- a) \<and>
         cash (snd (deductCash source (Finite a) memo uid now s)) = e # cash s))) \<and>
   (amount = NaN \<or> amount = NegInfinity \<or> (\<exists>a. amount = Finite a \<and> a \<le> 0) \<longrightarrow>
      cash (snd (addCash source amount memo uid now s)) = cash s \<and>
      cash (snd (addToCash buyer source amount memo uid now s)) = cash s \<and>
      cash (snd (deductCash source amount memo uid now s)) = cash s)"
  by (auto simp: addCash_def addToCash_def okAddCash_def deductCash_def Let_def)

text \<open>
  C10 fails on the amount \<^verbatim>\<open>Infinity\<close>, which \<^verbatim>\<open>parseFloat\<close> returns for the text
  \<^verbatim>\<open>Infinity\<close> or \<^verbatim>\<open>1e999\<close>: the test \<^verbatim>\<open>isNaN(amount) || amount <= 0\<close> of the add and
  deduct handlers lets it through, no alert is shown, and the entry is saved with the amount
  \<^verbatim>\<open>null\<close>, which is neither above nor below zero and counts as \<open>0\<close> in the totals.
\<close>

theorem infinite_amount:
  "not_positive Infinity = False \<and>
   addCash ''GCash'' Infinity [] ''c1'' 1 empty_ledger = (None, infinity_example) \<and>
   cash empty_ledger = [] \<and>
   cash infinity_example =
     [\<lparr>c_id = ''c1'', c_source = ''GCash'', c_amount = None, c_note = [], c_createdAt = 1\<rparr>] \<and>
   cash (snd (deductCash ''GCash'' Infinity [] ''c1'' 1 empty_ledger)) =
     [\<lparr>c_id = ''c1'', c_source = ''GCash'', c_amount = None, c_note = ''Purchase deduction'',
       c_createdAt = 1\<rparr>] \<and>
   onHandTotal infinity_example = Finite 0"
  by (simp add: infinity_example_def addCash_def deductCash_def empty_ledger_def onHandTotal_def
      cash_totals_def to_double_def)

subsection \<open>The grand total\<close>

text \<open>
  The total that \<^verbatim>\<open>Cash.render\<close> keeps for a source is the running sum, in list order, of
  the entries of that source alone.
\<close>

lemma totals_lookup:
  "total_or_zero (foldl (\<lambda>totals i.
              totals(c_source i \<mapsto>
                js_add (total_or_zero (totals (c_source i))) (Finite (or_zero (c_amount i)))))
       T items k) =
   foldl (\<lambda>acc e. number_or_zero (js_add acc (Finite (or_zero (c_amount e)))))
     (total_or_zero (T k)) (filter (\<lambda>i. c_source i = k) items)"
  by (induction items arbitrary: T) simp_all

lemma cash_unchanged:
  "cash (snd (addBought chosenSeller buy ship sell f uid now s)) = cash s"
  "cash (snd (listForSale ident uid now s)) = cash s"
  "cash (snd (renameSeller name nn s)) = cash s"
  "cash (snd (deleteSeller name confirmed reassignTo s)) = cash s"
  "cash (snd (renameBuyer name nn s)) = cash s"
  "cash (snd (deleteBuyer name confirmed s)) = cash s"
  "cash (snd (markSold ident buyer now s)) = cash s"
  "cash (snd (markAllPaid buyer s)) = cash s"
  "cash (snd (markPaid ident s)) = cash s"
  "cash (snd (deleteSold ident confirmed s)) = cash s"
  by (simp_all add: addBought_def listForSale_def renameSeller_def deleteSeller_def
      renameBuyer_def deleteBuyer_def markSold_def markAllPaid_def markPaid_def deleteSold_def
      Let_def split: option.splits prod.splits)

lemma cash_of_cash_handlers:
  "cash (snd (addToCash buyer src amt nt uid now s)) = cash s \<or>
     (\<exists>e. cash (snd (addToCash buyer src amt nt uid now s)) = e # cash s \<and>
          c_source e = src \<and> src \<noteq> [])"
  "cash (snd (addCash src amt nt uid now s)) = cash s \<or>
     (\<exists>e. cash (snd (addCash src amt nt uid now s)) = e # cash s \<and>
          c_source e = src \<and> src \<noteq> [])"
  "cash (snd (deductCash src amt nt uid now s)) = cash s \<or>
     (\<exists>e. cash (snd (deductCash src amt nt uid now s)) = e # cash s \<and>
          c_source e = src \<and> src \<noteq> [])"
  by (simp_all add: okAddCash_def addToCash_def addCash_def deductCash_def Let_def)

lemma options_nonempty:
  "src \<in> set c_source_options \<Longrightarrow> src \<noteq> [] \<Longrightarrow> src \<in> set cashSrc_options"
  by (auto simp: c_source_options_def cashSrc_options_def)

text \<open>Every cash entry of a reachable state has one of the three sources.\<close>

lemma reachable_sources:
  "reachable s \<Longrightarrow> \<forall>e \<in> set (cash s). c_source e \<in> set cashSrc_options"
proof (induction rule: reachable.induct)
  case fresh
  show ?case by (simp add: empty_ledger_def)
next
  case (addToCash s src buyer amt nt uid now)
  then show ?case
    using cash_of_cash_handlers(1)[of buyer src amt nt uid now s] by auto
next
  case (addCash s source amount nt uid now)
  then show ?case
    using cash_of_cash_handlers(2)[of source amount nt uid now s] options_nonempty[of source]
    by auto
next
  case (deductCash s source amount nt uid now)
  then show ?case
    using cash_of_cash_handlers(3)[of source amount nt uid now s] options_nonempty[of source]
    by auto
next
  case (deleteCash s ident)
  then show ?case
    using set_splice1 by (fastforce simp: deleteCash_def split: option.splits)
qed (simp_all only: cash_unchanged)

lemma grand_without_pending: "grand (s\<lparr>sold := filter isPaid (sold s)\<rparr>) = grand s"
  by (simp add: grand_def onHandTotal_def calcSoldRevenue_def)

text \<open>
  Whole amounts: as long as the absolute values of the amounts and of the paid prices add
  up to at most \<open>2 ^ 53\<close>, no addition rounds.
\<close>

lemma source_total_exact:
  assumes ints: "\<forall>e \<in> set items. or_zero (c_amount e) \<in> \<int>"
    and bound: "sum_list (map (\<lambda>e. \<bar>or_zero (c_amount e)\<bar>) (filter (\<lambda>i. c_source i = k) items))
       \<le> 2 ^ 53"
    and k: "k \<in> set cashSrc_options"
  shows "total_or_zero (cash_totals items k) =
         Finite (sum_list (map (\<lambda>e. or_zero (c_amount e)) (filter (\<lambda>i. c_source i = k) items)))"
proof -
  have init: "total_or_zero
      ([''GCash'' \<mapsto> Finite 0, ''SeaBank'' \<mapsto> Finite 0, ''Cash'' \<mapsto> Finite 0] k) = Finite 0"
    using k by (auto simp: cashSrc_options_def)
  have "foldl (\<lambda>acc e. number_or_zero (js_add acc (Finite (or_zero (c_amount e))))) (Finite 0)
      (filter (\<lambda>i. c_source i = k) items) =
      Finite (0 + sum_list (map (\<lambda>e. or_zero (c_amount e)) (filter (\<lambda>i. c_source i = k) items)))"
  proof (rule fold_exact)
    show "number_or_zero (Finite x) = Finite x" for x by simp
    show "\<forall>e \<in> set (filter (\<lambda>i. c_source i = k) items). or_zero (c_amount e) \<in> \<int>"
      using ints by simp
    show "(0::rat) \<in> \<int>" by simp
    show "\<bar>0::rat\<bar> + sum_list (map (\<lambda>e. \<bar>or_zero (c_amount e)\<bar>)
        (filter (\<lambda>i. c_source i = k) items)) \<le> 2 ^ 53"
      using bound by simp
  qed
  then show ?thesis
    by (simp only: cash_totals_def totals_lookup init add_0)
qed

lemma grand_exact:
  assumes src: "\<forall>e \<in> set (cash s). c_source e \<in> set cashSrc_options"
    and ints: "\<forall>e \<in> set (cash s). or_zero (c_amount e) \<in> \<int>"
    and pints: "\<forall>i \<in> set (filter isPaid (sold s)). l_price i \<in> \<int>"
    and bound: "sum_list (map (\<lambda>e. \<bar>or_zero (c_amount e)\<bar>) (cash s)) +
        sum_list (map (\<lambda>i. \<bar>l_price i\<bar>) (filter isPaid (sold s))) \<le> 2 ^ 53"
  shows "grand s = Finite (sum_list (map (\<lambda>e. or_zero (c_amount e)) (cash s)) +
           sum_list (map l_price (filter isPaid (sold s))))"
proof -
  define F where "F k = filter (\<lambda>i. c_source i = k) (cash s)" for k
  define S where "S k = sum_list (map (\<lambda>e. or_zero (c_amount e)) (F k))" for k
  define A where "A k = sum_list (map (\<lambda>e. \<bar>or_zero (c_amount e)\<bar>) (F k))" for k
  define p where "p = sum_list (map l_price (filter isPaid (sold s)))"
  define ap where "ap = sum_list (map (\<lambda>i. \<bar>l_price i\<bar>) (filter isPaid (sold s)))"
  have src': "\<forall>e \<in> set (cash s). c_source e \<in> {''GCash'', ''SeaBank'', ''Cash''}"
    using src by (simp add: cashSrc_options_def)
  have sumA: "A ''GCash'' + A ''SeaBank'' + A ''Cash'' =
      sum_list (map (\<lambda>e. \<bar>or_zero (c_amount e)\<bar>) (cash s))"
    unfolding A_def F_def by (rule sum_list_filter3[OF _ _ _ src']) simp_all
  have sumS: "S ''GCash'' + S ''SeaBank'' + S ''Cash'' =
      sum_list (map (\<lambda>e. or_zero (c_amount e)) (cash s))"
    unfolding S_def F_def by (rule sum_list_filter3[OF _ _ _ src']) simp_all
  have Apos: "0 \<le> A k" for k unfolding A_def by (rule sum_list_nonneg) auto
  have appos: "0 \<le> ap" unfolding ap_def by (rule sum_list_nonneg) auto
  have SA: "\<bar>S k\<bar> \<le> A k" for k unfolding S_def A_def by (rule abs_sum_list_le)
  have pap: "\<bar>p\<bar> \<le> ap" unfolding p_def ap_def by (rule abs_sum_list_le)
  have total: "A ''GCash'' + A ''SeaBank'' + A ''Cash'' + ap \<le> 2 ^ 53"
    using bound by (simp only: sumA ap_def)
  have Sint: "S k \<in> \<int>" for k
    unfolding S_def F_def by (rule sum_list_Ints) (use ints in simp)
  have pint: "p \<in> \<int>" unfolding p_def by (rule sum_list_Ints) (rule pints)
  have Ak: "A k \<le> 2 ^ 53" if "k \<in> set cashSrc_options" for k
    using that total Apos[of "''GCash''"] Apos[of "''SeaBank''"] Apos[of "''Cash''"] appos
    by (auto simp: cashSrc_options_def)
  have T: "total_or_zero (cash_totals (cash s) k) = Finite (S k)"
    if "k \<in> set cashSrc_options" for k
    unfolding S_def F_def
    by (rule source_total_exact[OF ints _ that]) (use Ak[OF that] in \<open>simp add: A_def F_def\<close>)
  have paid: "fst (calcSoldRevenue s) = Finite p"
  proof -
    have "foldl (\<lambda>acc i. (\<lambda>x. x) (js_add acc (Finite (l_price i)))) (Finite 0)
        (filter isPaid (sold s)) = Finite (0 + sum_list (map l_price (filter isPaid (sold s))))"
    proof (rule fold_exact)
      show "(\<lambda>x. x) (Finite x) = Finite x" for x by simp
      show "\<forall>i \<in> set (filter isPaid (sold s)). l_price i \<in> \<int>" by (rule pints)
      show "(0::rat) \<in> \<int>" by simp
      show "\<bar>0::rat\<bar> + sum_list (map (\<lambda>i. \<bar>l_price i\<bar>) (filter isPaid (sold s))) \<le> 2 ^ 53"
        using total Apos[of "''GCash''"] Apos[of "''SeaBank''"] Apos[of "''Cash''"]
        by (simp add: ap_def)
    qed
    then show ?thesis by (simp add: calcSoldRevenue_def p_def)
  qed
  have b1: "\<bar>S ''GCash'' + S ''SeaBank''\<bar> \<le> 2 ^ 53"
    using SA[of "''GCash''"] SA[of "''SeaBank''"] Apos[of "''Cash''"] appos total by linarith
  have b2: "\<bar>S ''GCash'' + S ''SeaBank'' + S ''Cash''\<bar> \<le> 2 ^ 53"
    using SA[of "''GCash''"] SA[of "''SeaBank''"] SA[of "''Cash''"] appos total by linarith
  have b3: "\<bar>S ''GCash'' + S ''SeaBank'' + S ''Cash'' + p\<bar> \<le> 2 ^ 53"
    using SA[of "''GCash''"] SA[of "''SeaBank''"] SA[of "''Cash''"] pap total by linarith
  have a1: "js_add (Finite (S ''GCash'')) (Finite (S ''SeaBank'')) =
      Finite (S ''GCash'' + S ''SeaBank'')"
    by (rule js_add_exact[OF Sint Sint b1])
  have a2: "js_add (Finite (S ''GCash'' + S ''SeaBank'')) (Finite (S ''Cash'')) =
      Finite (S ''GCash'' + S ''SeaBank'' + S ''Cash'')"
    by (rule js_add_exact[OF _ Sint b2]) (simp add: Sint)
  have a3: "js_add (Finite (S ''GCash'' + S ''SeaBank'' + S ''Cash'')) (Finite p) =
      Finite (S ''GCash'' + S ''SeaBank'' + S ''Cash'' + p)"
    by (rule js_add_exact[OF _ pint b3]) (simp add: Sint)
  have TG: "total_or_zero (cash_totals (cash s) ''GCash'') = Finite (S ''GCash'')"
    by (rule T) (simp add: cashSrc_options_def)
  have TS: "total_or_zero (cash_totals (cash s) ''SeaBank'') = Finite (S ''SeaBank'')"
    by (rule T) (simp add: cashSrc_options_def)
  have TC: "total_or_zero (cash_totals (cash s) ''Cash'') = Finite (S ''Cash'')"
    by (rule T) (simp add: cashSrc_options_def)
  have on_hand: "onHandTotal s = Finite (S ''GCash'' + S ''SeaBank'' + S ''Cash'')"
    unfolding onHandTotal_def Let_def
    by (simp only: TG TS TC a1 a2)
  have "grand s = Finite (S ''GCash'' + S ''SeaBank'' + S ''Cash'' + p)"
    unfolding grand_def by (simp only: on_hand paid a3)
  then show ?thesis by (simp only: sumS p_def)
qed

text \<open>
  The example with fractional amounts: \<open>double_0_1\<close> and \<open>double_1_1\<close> are the doubles
  nearest to \<open>0.1\<close> and \<open>1.1\<close>, and each line of \<open>rounding_steps\<close> is one addition of
  \<^verbatim>\<open>Cash.render\<close> or of the sum in list order.
\<close>

lemma doubles: "to_double (1 / 10) = Finite double_0_1" "to_double (11 / 10) = Finite double_1_1"
  by code_simp+

lemma doubles_positive: "\<not> double_0_1 \<le> 0" "\<not> double_1_1 \<le> 0"
  by (simp_all add: double_0_1_def double_1_1_def)

lemma rounding_eval:
  "cash rounding_example =
     [\<lparr>c_id = ''c3'', c_source = ''GCash'', c_amount = Some double_0_1, c_note = [],
       c_createdAt = 3\<rparr>,
      \<lparr>c_id = ''c2'', c_source = ''Cash'', c_amount = Some double_0_1, c_note = [],
       c_createdAt = 2\<rparr>,
      \<lparr>c_id = ''c1'', c_source = ''GCash'', c_amount = Some double_1_1, c_note = [],
       c_createdAt = 1\<rparr>]"
  "sold rounding_example = []"
  by (simp_all add: rounding_example_def addCash_def empty_ledger_def doubles_positive)

lemma rounding_steps:
  "to_double (0 + double_0_1) = Finite double_0_1"
  "to_double (double_0_1 + double_1_1) = Finite (1351079888211149 / 1125899906842624)"
  "to_double (1351079888211149 / 1125899906842624 + 0) =
     Finite (1351079888211149 / 1125899906842624)"
  "to_double (1351079888211149 / 1125899906842624 + double_0_1) =
     Finite (2927339757790823 / 2251799813685248)"
  "to_double (2927339757790823 / 2251799813685248 + 0) =
     Finite (2927339757790823 / 2251799813685248)"
  "to_double (double_0_1 + double_0_1) = Finite (3602879701896397 / 18014398509481984)"
  "to_double (3602879701896397 / 18014398509481984 + double_1_1) =
     Finite (5854679515581645 / 4503599627370496)"
  by code_simp+

lemma rounding_grand:
  "grand rounding_example = Finite (2927339757790823 / 2251799813685248)"
  using rounding_steps
  by (simp add: grand_def onHandTotal_def cash_totals_def calcSoldRevenue_def rounding_eval)

lemma rounding_list_order:
  "foldl (\<lambda>acc e. js_add acc (Finite (or_zero (c_amount e)))) (Finite 0) (cash rounding_example) =
     Finite (5854679515581645 / 4503599627370496)"
  using rounding_steps by (simp add: rounding_eval)

lemma rounding_exact:
  "sum_list (map (\<lambda>e. or_zero (c_amount e)) (cash rounding_example)) =
     23418718062326581 / 18014398509481984"
  by (simp add: rounding_eval double_0_1_def double_1_1_def)

lemma cash_example_eval:
  "cash cash_example =
     [\<lparr>c_id = ''c2'', c_source = ''Cash'', c_amount = Some (- 20),
       c_note = ''Purchase deduction'', c_createdAt = 5\<rparr>,
      \<lparr>c_id = ''c1'', c_source = ''GCash'', c_amount = Some 50, c_note = ''float'',
       c_createdAt = 4\<rparr>]"
  "sold cash_example =
     [\<lparr>l_id = ''f1'', l_name = ''card'', l_price = 100, l_buy = 110, l_ship_in = Some 10,
       l_seller = ''Ana'', l_image = ''img'', l_createdAt = Some 2, l_buyer = Some ''Xavier'',
       l_soldAt = Some 3, l_status = Some ''Paid''\<rparr>]"
  by (simp_all add: cash_example_def paid_example_def deductCash_def addCash_def markPaid_def
      examples_eval)

text \<open>
  C7 as stated fails where an addition rounds. With the entries GCash 0.1, Cash 0.1 and
  GCash 1.1 and no sold record, \<^verbatim>\<open>Cash.render\<close> adds the two GCash amounts first and shows
  the grand total 1.3000000000000003, which is neither the sum of the three amounts nor
  what adding them one after the other gives (the double 1.3).
\<close>

theorem grand_total_rounding_counterexample:
  "reachable rounding_example \<and>
   to_double (1 / 10) = Finite double_0_1 \<and> to_double (11 / 10) = Finite double_1_1 \<and>
   map c_source (cash rounding_example) = [''GCash'', ''Cash'', ''GCash''] \<and>
   map c_amount (cash rounding_example) = [Some double_0_1, Some double_0_1, Some double_1_1] \<and>
   sold rounding_example = [] \<and>
   grand rounding_example = Finite (2927339757790823 / 2251799813685248) \<and>
   foldl (\<lambda>acc e. js_add acc (Finite (or_zero (c_amount e)))) (Finite 0) (cash rounding_example) =
     Finite (5854679515581645 / 4503599627370496) \<and>
   sum_list (map (\<lambda>e. or_zero (c_amount e)) (cash rounding_example)) +
     sum_list (map l_price (filter isPaid (sold rounding_example))) =
     23418718062326581 / 18014398509481984 \<and>
   grand rounding_example \<noteq>
     Finite (sum_list (map (\<lambda>e. or_zero (c_amount e)) (cash rounding_example)) +
       sum_list (map l_price (filter isPaid (sold rounding_example))))"
proof -
  have r: "reachable rounding_example"
    unfolding rounding_example_def
    by (intro reachable.addCash reachable.fresh) (simp_all add: c_source_options_def)
  show ?thesis
    using r doubles rounding_grand rounding_list_order rounding_exact
    by (simp add: rounding_eval)
qed

text \<open>
  C7 (amended). In every state that the page handlers reach, in whatever order they run,
  every cash entry has one of the three sources GCash, SeaBank and Cash, and the grand total
  that the Cash page shows is made of exactly these terms, added as doubles: the amounts of
  the GCash entries added in list order, plus those of the SeaBank entries, plus those of
  the Cash entries, plus the prices of the sold records that are Paid added in list order.
  The pending revenue, reported separately, is made of the prices of the other sold
  records, and dropping them leaves the grand total as it is. When the amounts and the paid
  prices are whole numbers whose absolute values add up to at most \<open>2 ^ 53\<close>, the grand
  total is the sum of all amounts plus the sum of the paid prices.
\<close>

theorem grand_total:
  assumes "reachable s"
  shows "(\<forall>e \<in> set (cash s). c_source e \<in> set cashSrc_options) \<and>
         grand s =
           js_add
             (js_add
               (js_add
                 (foldl (\<lambda>acc e. number_or_zero (js_add acc (Finite (or_zero (c_amount e)))))
                    (Finite 0) (filter (\<lambda>e. c_source e = ''GCash'') (cash s)))
                 (foldl (\<lambda>acc e. number_or_zero (js_add acc (Finite (or_zero (c_amount e)))))
                    (Finite 0) (filter (\<lambda>e. c_source e = ''SeaBank'') (cash s))))
               (foldl (\<lambda>acc e. number_or_zero (js_add acc (Finite (or_zero (c_amount e)))))
                  (Finite 0) (filter (\<lambda>e. c_source e = ''Cash'') (cash s))))
             (foldl (\<lambda>acc i. js_add acc (Finite (l_price i))) (Finite 0)
                (filter isPaid (sold s))) \<and>
         snd (calcSoldRevenue s) =
           foldl (\<lambda>acc i. js_add acc (Finite (l_price i))) (Finite 0)
             (filter (\<lambda>i. \<not> isPaid i) (sold s)) \<and>
         grand (s\<lparr>sold := filter isPaid (sold s)\<rparr>) = grand s \<and>
         ((\<forall>e \<in> set (cash s). or_zero (c_amount e) \<in> \<int>) \<and>
          (\<forall>i \<in> set (filter isPaid (sold s)). l_price i \<in> \<int>) \<and>
          sum_list (map (\<lambda>e. \<bar>or_zero (c_amount e)\<bar>) (cash s)) +
            sum_list (map (\<lambda>i. \<bar>l_price i\<bar>) (filter isPaid (sold s))) \<le> 2 ^ 53 \<longrightarrow>
          grand s = Finite (sum_list (map (\<lambda>e. or_zero (c_amount e)) (cash s)) +
                      sum_list (map l_price (filter isPaid (sold s)))))"
proof (intro conjI impI)
  show src: "\<forall>e \<in> set (cash s). c_source e \<in> set cashSrc_options"
    using assms by (rule reachable_sources)
  show "grand s =
           js_add
             (js_add
               (js_add
                 (foldl (\<lambda>acc e. number_or_zero (js_add acc (Finite (or_zero (c_amount e)))))
                    (Finite 0) (filter (\<lambda>e. c_source e = ''GCash'') (cash s)))
                 (foldl (\<lambda>acc e. number_or_zero (js_add acc (Finite (or_zero (c_amount e)))))
                    (Finite 0) (filter (\<lambda>e. c_source e = ''SeaBank'') (cash s))))
               (foldl (\<lambda>acc e. number_or_zero (js_add acc (Finite (or_zero (c_amount e)))))
                  (Finite 0) (filter (\<lambda>e. c_source e = ''Cash'') (cash s))))
             (foldl (\<lambda>acc i. js_add acc (Finite (l_price i))) (Finite 0)
                (filter isPaid (sold s)))"
    by (simp add: grand_def onHandTotal_def cash_totals_def totals_lookup calcSoldRevenue_def)
  show "snd (calcSoldRevenue s) =
           foldl (\<lambda>acc i. js_add acc (Finite (l_price i))) (Finite 0)
             (filter (\<lambda>i. \<not> isPaid i) (sold s))"
    by (simp add: calcSoldRevenue_def)
  show "grand (s\<lparr>sold := filter isPaid (sold s)\<rparr>) = grand s"
    by (rule grand_without_pending)
  assume "(\<forall>e \<in> set (cash s). or_zero (c_amount e) \<in> \<int>) \<and>
          (\<forall>i \<in> set (filter isPaid (sold s)). l_price i \<in> \<int>) \<and>
          sum_list (map (\<lambda>e. \<bar>or_zero (c_amount e)\<bar>) (cash s)) +
            sum_list (map (\<lambda>i. \<bar>l_price i\<bar>) (filter isPaid (sold s))) \<le> 2 ^ 53"
  then show "grand s = Finite (sum_list (map (\<lambda>e. or_zero (c_amount e)) (cash s)) +
                      sum_list (map l_price (filter isPaid (sold s))))"
    using grand_exact[OF src] by blast
qed

theorem grand_total_witness:
  "reachable cash_example \<and>
   sum_list (map (\<lambda>e. \<bar>or_zero (c_amount e)\<bar>) (cash cash_example)) +
     sum_list (map (\<lambda>i. \<bar>l_price i\<bar>) (filter isPaid (sold cash_example))) = 170 \<and>
   map c_source (cash cash_example) = [''Cash'', ''GCash''] \<and>
   map (\<lambda>e. or_zero (c_amount e)) (cash cash_example) = [- 20, 50] \<and>
   map l_price (filter isPaid (sold cash_example)) = [100] \<and>
   grand cash_example = Finite 130"
proof -
  have r: "reachable cash_example"
    unfolding cash_example_def paid_example_def sold_example_def listed_example_def
      intake_example_def
    by (intro reachable.deductCash reachable.addCash reachable.markPaid reachable.markSold
        reachable.listForSale reachable.addBought reachable.fresh)
      (simp_all add: c_source_options_def)
  show ?thesis
    using grand_total [OF r, THEN conjunct2, THEN conjunct2, THEN conjunct2, THEN conjunct2] r
    by (simp add: cash_example_eval isPaid_def)
qed

section \<open>Properties of the backup endpoints\<close>

lemma newest_Some:
  "newest rs = Some r \<Longrightarrow> r \<in> set rs \<and> (\<forall>x \<in> set rs. row_created_at x \<le> row_created_at r)"
proof (induction rs arbitrary: r)
  case Nil
  then show ?case by simp
next
  case (Cons a rs)
  show ?case
  proof (cases "newest rs")
    case None
    then have "rs = []" by (cases rs) (simp_all split: option.splits if_splits)
    with Cons.prems None show ?thesis by simp
  next
    case (Some m)
    from Cons.IH[OF Some] have m: "m \<in> set rs" "\<forall>x \<in> set rs. row_created_at x \<le> row_created_at m"
      by simp_all
    show ?thesis
      using Cons.prems Some m by (auto split: if_splits)
  qed
qed

lemma newest_None: "(newest rs = None) = (rs = [])"
  by (cases rs) (simp_all split: option.splits)

lemma truthy_label_or_manual: "truthy (label_or_manual l)"
  by (cases l) simp_all

lemma truthy_not_null: "truthy p \<Longrightarrow> (p = JNull) = False"
  by auto

text \<open>
  C9 as stated fails: the two handlers answer the same POST and the same GET on an empty
  table with different bodies. The Netlify function returns \<^verbatim>\<open>saved: { id, created_at }\<close>
  where the Vercel function returns \<^verbatim>\<open>backup: { id, created_at, label, payload }\<close>, and
  \<^verbatim>\<open>success: true\<close> with \<^verbatim>\<open>backup: null\<close> where the Vercel function returns
  \<^verbatim>\<open>success: false\<close>.
\<close>

theorem backup_endpoints_differ_counterexample:
  "body (fst (handler post_request 3 30 empty_db)) =
     JsonBody (JObj [(''success'', JBool True),
       (''backup'', JObj [(''id'', JNum 3), (''created_at'', JNum 30), (''label'', JStr ''manual''),
                          (''payload'', JObj [(''localStorage'', JObj [])])])]) \<and>
   body (fst (exports_handler post_request 3 30 empty_db)) =
     JsonBody (JObj [(''success'', JBool True),
       (''saved'', JObj [(''id'', JNum 3), (''created_at'', JNum 30)])]) \<and>
   body (fst (handler get_request 3 30 empty_db)) =
     JsonBody (JObj [(''success'', JBool False), (''backup'', JNull),
                     (''error'', JStr ''No backups found'')]) \<and>
   body (fst (exports_handler get_request 3 30 empty_db)) =
     JsonBody (JObj [(''success'', JBool True), (''backup'', JNull)]) \<and>
   fst (handler post_request 3 30 empty_db) \<noteq> fst (exports_handler post_request 3 30 empty_db) \<and>
   fst (handler get_request 3 30 empty_db) \<noteq> fst (exports_handler get_request 3 30 empty_db)"
  by (simp add: handler_def exports_handler_def post_request_def get_request_def empty_db_def
      destructure_def saveBackup_def insert_backup_def getLatestBackup_def select_latest_def
      row_json_def cors_def Let_def)

text \<open>
  C9 (amended). With the database up: a POST whose body is an object with a truthy payload
  makes both handlers insert the same row (the payload, the label or \<^verbatim>\<open>"manual"\<close>) and
  answer 200, the Vercel function with \<^verbatim>\<open>{ success: true, backup: row }\<close>, the Netlify
  function with \<^verbatim>\<open>{ success: true, saved: { id, created_at } }\<close>; a GET on a table with
  rows makes both answer 200 with the same body \<^verbatim>\<open>{ success: true, backup: row }\<close> for a
  row of the greatest \<open>created_at\<close>; a GET on an empty table is answered
  \<^verbatim>\<open>{ success: false, backup: null, error }\<close> by the Vercel function and
  \<^verbatim>\<open>{ success: true, backup: null }\<close> by the Netlify function; any method other than
  POST, GET and OPTIONS is answered 405 by both, with a JSON error object by the one and
  the text \<^verbatim>\<open>Method not allowed\<close> by the other, and changes no row.
\<close>

theorem backup_endpoints:
  "(req_method req = ''POST'' \<and> req_body req = Some (JObj kvs) \<and>
    map_of (rev kvs) ''payload'' = Some p \<and> truthy p \<and> query_error db = None \<longrightarrow>
      snd (handler req new_id now db) =
        db\<lparr>twicks_backups := twicks_backups db @
          [\<lparr>row_id = new_id, row_created_at = now,
            row_label = label_or_manual (map_of (rev kvs) ''label''), row_payload = p\<rparr>]\<rparr> \<and>
      snd (exports_handler req new_id now db) = snd (handler req new_id now db) \<and>
      statusCode (fst (handler req new_id now db)) = 200 \<and>
      statusCode (fst (exports_handler req new_id now db)) = 200 \<and>
      body (fst (handler req new_id now db)) =
        JsonBody (JObj [(''success'', JBool True),
          (''backup'', JObj [(''id'', JNum (of_nat new_id)), (''created_at'', JNum (of_nat now)),
             (''label'', label_or_manual (map_of (rev kvs) ''label'')), (''payload'', p)])]) \<and>
      body (fst (exports_handler req new_id now db)) =
        JsonBody (JObj [(''success'', JBool True),
          (''saved'', JObj [(''id'', JNum (of_nat new_id)), (''created_at'', JNum (of_nat now))])])) \<and>
   (req_method req = ''GET'' \<and> query_error db = None \<and> newest (twicks_backups db) = Some r \<longrightarrow>
      r \<in> set (twicks_backups db) \<and>
      (\<forall>x \<in> set (twicks_backups db). row_created_at x \<le> row_created_at r) \<and>
      statusCode (fst (handler req new_id now db)) = 200 \<and>
      statusCode (fst (exports_handler req new_id now db)) = 200 \<and>
      body (fst (handler req new_id now db)) =
        JsonBody (JObj [(''success'', JBool True), (''backup'', row_json r)]) \<and>
      body (fst (exports_handler req new_id now db)) = body (fst (handler req new_id now db)) \<and>
      snd (handler req new_id now db) = db \<and> snd (exports_handler req new_id now db) = db) \<and>
   (req_method req = ''GET'' \<and> query_error db = None \<and> twicks_backups db = [] \<longrightarrow>
      statusCode (fst (handler req new_id now db)) = 200 \<and>
      statusCode (fst (exports_handler req new_id now db)) = 200 \<and>
      body (fst (handler req new_id now db)) =
        JsonBody (JObj [(''success'', JBool False), (''backup'', JNull),
                        (''error'', JStr ''No backups found'')]) \<and>
      body (fst (exports_handler req new_id now db)) =
        JsonBody (JObj [(''success'', JBool True), (''backup'', JNull)])) \<and>
   (req_method req \<noteq> ''POST'' \<and> req_method req \<noteq> ''GET'' \<and> req_method req \<noteq> ''OPTIONS'' \<longrightarrow>
      statusCode (fst (handler req new_id now db)) = 405 \<and>
      statusCode (fst (exports_handler req new_id now db)) = 405 \<and>
      body (fst (handler req new_id now db)) =
        JsonBody (JObj [(''success'', JBool False), (''error'', JStr ''Method not allowed'')]) \<and>
      body (fst (exports_handler req new_id now db)) = TextBody ''Method not allowed'' \<and>
      snd (handler req new_id now db) = db \<and> snd (exports_handler req new_id now db) = db)"
proof (intro conjI impI)
  assume a: "req_method req = ''GET'' \<and> query_error db = None \<and> newest (twicks_backups db) = Some r"
  from newest_Some[of "twicks_backups db" r] a
  show "r \<in> set (twicks_backups db)" "\<forall>x \<in> set (twicks_backups db). row_created_at x \<le> row_created_at r"
    by simp_all
qed (simp_all add: handler_def exports_handler_def destructure_def saveBackup_def insert_backup_def
    getLatestBackup_def select_latest_def row_json_def Let_def truthy_nullish
    truthy_label_or_manual truthy_not_null)

theorem backup_endpoints_witness:
  "twicks_backups (snd (handler post_request 3 30 empty_db)) =
     [\<lparr>row_id = 3, row_created_at = 30, row_label = JStr ''manual'',
       row_payload = JObj [(''localStorage'', JObj [])]\<rparr>] \<and>
   snd (exports_handler post_request 3 30 empty_db) = snd (handler post_request 3 30 empty_db) \<and>
   map row_id (twicks_backups two_row_db) = [1, 2] \<and>
   map_option row_id (newest (twicks_backups two_row_db)) = Some 2 \<and>
   body (fst (exports_handler get_request 3 30 two_row_db)) =
     body (fst (handler get_request 3 30 two_row_db)) \<and>
   statusCode (fst (handler get_request 3 30 two_row_db)) = 200 \<and>
   body (fst (handler get_request 3 30 empty_db)) \<noteq>
     body (fst (exports_handler get_request 3 30 empty_db)) \<and>
   statusCode (fst (handler delete_request 3 30 two_row_db)) = 405 \<and>
   statusCode (fst (exports_handler delete_request 3 30 two_row_db)) = 405"
  using backup_endpoints [where req = post_request and db = empty_db and new_id = 3 and now = 30
      and kvs = "[(''payload'', JObj [(''localStorage'', JObj [])]), (''label'', JStr ''manual'')]"
      and p = "JObj [(''localStorage'', JObj [])]"]
    backup_endpoints [where req = get_request and db = two_row_db and new_id = 3 and now = 30
      and r = "\<lparr>row_id = 2, row_created_at = 20, row_label = JStr ''manual'',
         row_payload = JObj [(''localStorage'', JObj [(''twicks_cash_v1'', JStr ''[]'')])]\<rparr>"]
    backup_endpoints [where req = get_request and db = empty_db and new_id = 3 and now = 30]
    backup_endpoints [where req = delete_request and db = two_row_db and new_id = 3 and now = 30]
  by (simp add: post_request_def get_request_def delete_request_def empty_db_def two_row_db_def)

end
